theory Spec2Isabelle
  imports Complex_Main "HOL-Library.AList"
begin

section \<open>Values shared by the helpers\<close>

text \<open>
  The exceptions the helpers of \<^verbatim>\<open>functions.py\<close> (and the library calls they make)
  can raise.  \<open>KeyError k\<close> carries the missing key, \<open>ValueError msgs\<close> the parts of
  its message.
\<close>

datatype error = KeyError string | ValueError "string list" | ZeroDivisionError

text \<open>
  A numpy \<^verbatim>\<open>float64\<close> scalar: a number, an infinity or not-a-number.  Numbers
  are modelled as exact reals (rounding of the binary representation and signed zeros
  are not modelled).
\<close>

datatype npfloat = Fin real | PInf | NInf | NaN

text \<open>
  The metric helpers return the number itself or, with the formatting toggle off, the
  string \<^verbatim>\<open>f"{value:.4f}"\<close>; \<open>AsText v\<close> stands for that string.
\<close>

datatype 'a formatted = AsFloat 'a | AsText 'a

text \<open>
  A pandas \<^verbatim>\<open>DataFrame\<close>: its named columns in order, every column a list
  of cell values (no missing values are modelled).
\<close>

type_synonym 'a DataFrame = "(string \<times> 'a list) list"

definition shape_df :: "'a DataFrame \<Rightarrow> nat \<times> nat" where
  "shape_df df = ((case df of [] \<Rightarrow> 0 | c # _ \<Rightarrow> length (snd c)), length df)"

section \<open>Adjusted R2\<close>

text \<open>
  \<^verbatim>\<open>adjusted_r2(y_true, X_df, r2, as_float)\<close>, lines 58-67.  \<open>n\<close> and \<open>p\<close> are
  Python integers, \<open>r2\<close> is a Python \<^verbatim>\<open>float\<close> (its annotation), so a zero
  denominator raises \<^verbatim>\<open>ZeroDivisionError\<close>.
\<close>

definition adjusted_r2 :: "real list \<Rightarrow> 'a DataFrame \<Rightarrow> real \<Rightarrow> bool \<Rightarrow> error + real formatted" where
  "adjusted_r2 y_true X_df r2 as_float =
     (let n = int (length y_true);
          p = int (snd (shape_df X_df))
      in if n - p - 1 = 0 then Inl ZeroDivisionError
         else (let adjusted = 1 - (1 - r2) * of_int (n - 1) / of_int (n - p - 1)
               in if as_float then Inr (AsFloat adjusted) else Inr (AsText adjusted)))"

section \<open>Choice of the cross-validation splitter\<close>

text \<open>
  The \<^verbatim>\<open>cv\<close> argument of sklearn's \<^verbatim>\<open>cross_validate\<close>: a fold count, or a
  splitter object with its \<^verbatim>\<open>n_splits\<close>, \<^verbatim>\<open>shuffle\<close> and
  \<^verbatim>\<open>random_state\<close>.
\<close>

datatype cv_arg = CvInt int | StratifiedKFold int bool int | KFold int bool int

text \<open>
  \<^verbatim>\<open>k_fold_cross_val\<close>, lines 767-816.  The library's \<^verbatim>\<open>get_scorer_names()\<close>
  and \<^verbatim>\<open>cross_validate\<close> are parameters; the result is whatever
  \<^verbatim>\<open>cross_validate\<close> returns for the arguments it is called with.  The
  \<^verbatim>\<open>ValueError\<close> carries the invalid score names.
\<close>

definition k_fold_cross_val ::
  "string list \<Rightarrow> ('m \<Rightarrow> 'x \<Rightarrow> 'y \<Rightarrow> cv_arg \<Rightarrow> string list \<Rightarrow> bool \<Rightarrow> 'r) \<Rightarrow>
   'x \<Rightarrow> 'y \<Rightarrow> bool \<Rightarrow> bool \<Rightarrow> int \<Rightarrow> int \<Rightarrow> 'm \<Rightarrow> string list \<Rightarrow> bool \<Rightarrow> error + 'r" where
  "k_fold_cross_val get_scorer_names cross_validate X y k_fold stratified n_splits random_state
       model scoring return_train_score =
     (let score_check = map (\<lambda>score. score \<notin> set get_scorer_names) scoring
      in if list_ex (\<lambda>elt. elt) score_check
         then Inl (ValueError (map fst (filter snd (zip scoring score_check))))
         else (let cv = CvInt n_splits;
                   cv = (if stratified then StratifiedKFold n_splits True random_state else cv);
                   cv = (if k_fold then KFold n_splits True random_state else cv)
               in Inr (cross_validate model X y cv scoring return_train_score)))"

section \<open>Cross-validation score normalizer\<close>

text \<open>
  A value stored in the score record: a numpy array of per-fold scores, or a numpy
  scalar (what the normalizer itself stores).
\<close>

datatype pyval = Arr "real list" | Scalar npfloat

type_synonym pydict = "string \<rightharpoonup> pyval"

text \<open>
  \<^verbatim>\<open>np.abs\<close>, \<^verbatim>\<open>.mean()\<close> and \<^verbatim>\<open>.std()\<close> (the population standard
  deviation, numpy's default \<^verbatim>\<open>ddof=0\<close>).  On an empty array numpy's mean and
  standard deviation are \<^verbatim>\<open>nan\<close>.
\<close>

fun fabs :: "npfloat \<Rightarrow> npfloat" where
  "fabs (Fin r) = Fin \<bar>r\<bar>"
| "fabs PInf = PInf"
| "fabs NInf = PInf"
| "fabs NaN = NaN"

fun np_abs :: "pyval \<Rightarrow> pyval" where
  "np_abs (Arr xs) = Arr (map abs xs)"
| "np_abs (Scalar f) = Scalar (fabs f)"

definition mean :: "real list \<Rightarrow> real" where
  "mean xs = sum_list xs / real (length xs)"

fun np_mean :: "pyval \<Rightarrow> npfloat" where
  "np_mean (Arr xs) = (if xs = [] then NaN else Fin (mean xs))"
| "np_mean (Scalar f) = f"

fun np_std :: "pyval \<Rightarrow> npfloat" where
  "np_std (Arr xs) =
     (if xs = [] then NaN else Fin (sqrt (mean (map (\<lambda>x. (x - mean xs)\<^sup>2) xs))))"
| "np_std (Scalar (Fin r)) = Fin 0"
| "np_std (Scalar f) = NaN"

text \<open>The translation table of \<^verbatim>\<open>transform_cross_val_scores\<close>, lines 176-180.\<close>

definition mapping :: "string \<rightharpoonup> string" where
  "mapping = [''neg_root_mean_squared_error'' \<mapsto> ''rmse'',
              ''neg_mean_absolute_error'' \<mapsto> ''mae'',
              ''r2'' \<mapsto> ''r2'']"

text \<open>
  One assignment of the loop body, for example line 184:
  \<^verbatim>\<open>perf_dict[f"train_{mapping[score]}_mean"] = np.abs(perf_dict[f'train_{score}']).mean()\<close>.
  Python evaluates the right-hand side first (a missing raw key raises), then the
  subscript of the target (a score missing from \<open>mapping\<close> raises), then stores.
\<close>

definition assign_stat ::
  "(pyval \<Rightarrow> npfloat) \<Rightarrow> string \<Rightarrow> string \<Rightarrow> string \<Rightarrow> pydict \<Rightarrow> pydict \<times> (error + unit)" where
  "assign_stat stat part suffix score perf_dict =
     (case perf_dict (part @ score) of
        None \<Rightarrow> (perf_dict, Inl (KeyError (part @ score)))
      | Some raw \<Rightarrow>
          (case mapping score of
             None \<Rightarrow> (perf_dict, Inl (KeyError score))
           | Some m \<Rightarrow> (perf_dict(part @ m @ suffix \<mapsto> Scalar (stat (np_abs raw))), Inr ())))"

text \<open>Statement sequencing: an exception stops the run and keeps the state reached.\<close>

definition and_then ::
  "'s \<times> (error + unit) \<Rightarrow> ('s \<Rightarrow> 's \<times> (error + unit)) \<Rightarrow> 's \<times> (error + unit)" where
  "and_then r f = (case r of (s, Inl e) \<Rightarrow> (s, Inl e) | (s, Inr _) \<Rightarrow> f s)"

text \<open>The body of the loop, lines 184-189, and the loop over \<^verbatim>\<open>scoring\<close>.\<close>

definition loop_body :: "string \<Rightarrow> pydict \<Rightarrow> pydict \<times> (error + unit)" where
  "loop_body score perf_dict =
     and_then (and_then (and_then
       (assign_stat np_mean ''train_'' ''_mean'' score perf_dict)
       (assign_stat np_mean ''test_'' ''_mean'' score))
       (assign_stat np_std ''train_'' ''_std'' score))
       (assign_stat np_std ''test_'' ''_std'' score)"

fun score_loop :: "string list \<Rightarrow> pydict \<Rightarrow> pydict \<times> (error + unit)" where
  "score_loop [] perf_dict = (perf_dict, Inr ())"
| "score_loop (score # rest) perf_dict = and_then (loop_body score perf_dict) (score_loop rest)"

text \<open>
  \<^verbatim>\<open>transform_cross_val_scores\<close>, lines 161-191.  Dictionaries are objects in a
  store; \<open>perf_dict\<close> is the address of the record passed in.  The function mutates
  that object and returns its address (line 191).
\<close>

type_synonym store = "nat \<Rightarrow> pydict"

definition transform_cross_val_scores :: "store \<Rightarrow> nat \<Rightarrow> string list \<Rightarrow> store \<times> (error + nat)" where
  "transform_cross_val_scores h perf_dict scoring =
     (case score_loop scoring (h perf_dict) of
        (d, Inl e) \<Rightarrow> (h(perf_dict := d), Inl e)
      | (d, Inr _) \<Rightarrow> (h(perf_dict := d), Inr perf_dict))"

text \<open>
  Vocabulary for the statements: a requested score is usable when the table translates
  it and both raw keys are in the record; \<open>norm_keys\<close> are the four keys written for it
  and \<open>norm_entries\<close> the values they get.
\<close>

definition valid_score :: "pydict \<Rightarrow> string \<Rightarrow> bool" where
  "valid_score d score =
     (mapping score \<noteq> None \<and> d (''train_'' @ score) \<noteq> None \<and> d (''test_'' @ score) \<noteq> None)"

definition norm_entries :: "pydict \<Rightarrow> string \<Rightarrow> pydict" where
  "norm_entries d score =
     (case (mapping score, d (''train_'' @ score), d (''test_'' @ score)) of
        (Some m, Some tr, Some te) \<Rightarrow>
          [''train_'' @ m @ ''_mean'' \<mapsto> Scalar (np_mean (np_abs tr)),
           ''test_'' @ m @ ''_mean'' \<mapsto> Scalar (np_mean (np_abs te)),
           ''train_'' @ m @ ''_std'' \<mapsto> Scalar (np_std (np_abs tr)),
           ''test_'' @ m @ ''_std'' \<mapsto> Scalar (np_std (np_abs te))]
      | _ \<Rightarrow> Map.empty)"

definition norm_keys :: "string \<Rightarrow> string set" where
  "norm_keys score =
     (case mapping score of
        None \<Rightarrow> {}
      | Some m \<Rightarrow> {''train_'' @ m @ ''_mean'', ''test_'' @ m @ ''_mean'',
                   ''train_'' @ m @ ''_std'', ''test_'' @ m @ ''_std''})"

text \<open>
  Two records agree on the raw scores when every raw key of a translatable score has
  the same value in both; \<open>written d0 scoring d\<close> is \<open>d\<close> with the normalized entries of
  every score of \<open>scoring\<close> (computed from \<open>d0\<close>) stored in turn.
\<close>

definition agree_raw :: "pydict \<Rightarrow> pydict \<Rightarrow> bool" where
  "agree_raw d d' = (\<forall>s. mapping s \<noteq> None \<longrightarrow>
      d' (''train_'' @ s) = d (''train_'' @ s) \<and> d' (''test_'' @ s) = d (''test_'' @ s))"

definition written :: "pydict \<Rightarrow> string list \<Rightarrow> pydict \<Rightarrow> pydict" where
  "written d0 scoring d = foldl (\<lambda>acc s. acc ++ norm_entries d0 s) d scoring"

text \<open>Example records, at address \<open>0\<close> of the store.\<close>

definition fold_scores :: store where
  "fold_scores = (\<lambda>_. Map.empty)
     (0 := [''train_neg_root_mean_squared_error'' \<mapsto> Arr [-1, -2, -3],
            ''test_neg_root_mean_squared_error'' \<mapsto> Arr [-4, -5]])"

definition r2_scores :: store where
  "r2_scores = (\<lambda>_. Map.empty)
     (0 := [''train_r2'' \<mapsto> Arr [1/2, 1/2], ''test_r2'' \<mapsto> Arr [1/4, 3/4]])"

definition rerun_scores :: store where
  "rerun_scores = (\<lambda>_. Map.empty)
     (0 := [''train_r2'' \<mapsto> Arr [1/2, 1/2], ''test_r2'' \<mapsto> Arr [1/4, 3/4],
            ''train_r2_mean'' \<mapsto> Scalar (Fin 7)])"

section \<open>Comparison table builder\<close>

text \<open>
  The comparison table is a pandas \<^verbatim>\<open>DataFrame\<close>: its row labels and its named
  columns, each column holding one cell per row label.  A missing cell is
  \<^verbatim>\<open>nan\<close>.
\<close>

record comparison_frame =
  row_index :: "string list"
  named_columns :: "(string \<times> pyval list) list"

text \<open>
  \<^verbatim>\<open>frame[name] = {...}\<close>, the assignment of a dictionary to a column, as pandas
  does it: the dictionary becomes a series labelled by its keys and is aligned on
  the frame's row labels, a label that is not a key getting \<^verbatim>\<open>nan\<close>.  A frame
  without rows first takes the keys as its row labels (columns it already has are
  filled with \<^verbatim>\<open>nan\<close>).  A column of that name is replaced where it stands, a
  new one is appended.
\<close>

definition setitem_dict ::
  "comparison_frame \<Rightarrow> string \<Rightarrow> (string \<times> pyval) list \<Rightarrow> comparison_frame" where
  "setitem_dict frame name entries =
     (let frame1 =
            (if row_index frame = [] \<and> entries \<noteq> []
             then \<lparr>row_index = map fst entries,
                   named_columns = map (\<lambda>c. (fst c, replicate (length entries) (Scalar NaN)))
                                     (named_columns frame)\<rparr>
             else frame);
          cells = map (\<lambda>label. case map_of entries label of None \<Rightarrow> Scalar NaN | Some v \<Rightarrow> v)
                    (row_index frame1)
      in frame1\<lparr>named_columns := AList.update name cells (named_columns frame1)\<rparr>)"

definition getitem :: "pydict \<Rightarrow> string \<Rightarrow> error + pyval" where
  "getitem d k = (case d k of None \<Rightarrow> Inl (KeyError k) | Some v \<Rightarrow> Inr v)"

text \<open>
  \<^verbatim>\<open>fill_comparison_df\<close>, lines 194-222: the dictionary display is evaluated entry
  by entry (a missing key raises before anything is stored), then assigned to the
  column \<^verbatim>\<open>model_name\<close>.  The function has no \<^verbatim>\<open>return\<close>: it returns
  \<^verbatim>\<open>None\<close>, modelled as \<open>()\<close>.
\<close>

definition fill_comparison_df ::
  "comparison_frame \<Rightarrow> string \<Rightarrow> string \<Rightarrow> pydict \<Rightarrow> comparison_frame \<times> (error + unit)" where
  "fill_comparison_df comparison_df metrics model_name model_metrics =
     (case getitem model_metrics (''train_'' @ metrics @ ''_mean'') of
        Inl e \<Rightarrow> (comparison_df, Inl e)
      | Inr a \<Rightarrow>
     (case getitem model_metrics (''test_'' @ metrics @ ''_mean'') of
        Inl e \<Rightarrow> (comparison_df, Inl e)
      | Inr b \<Rightarrow>
     (case getitem model_metrics (''train_'' @ metrics @ ''_std'') of
        Inl e \<Rightarrow> (comparison_df, Inl e)
      | Inr c \<Rightarrow>
     (case getitem model_metrics (''test_'' @ metrics @ ''_std'') of
        Inl e \<Rightarrow> (comparison_df, Inl e)
      | Inr d \<Rightarrow>
          (setitem_dict comparison_df model_name
             [(''train_'' @ metrics @ ''_mean'', a), (''test_'' @ metrics @ ''_mean'', b),
              (''train_'' @ metrics @ ''_std'', c), (''test_'' @ metrics @ ''_std'', d)],
           Inr ())))))"

text \<open>
  Vocabulary for the statements: the four keys of a metric family, in the order the
  function builds them; a metrics record that has them; and the four key-value pairs
  the function takes from it.
\<close>

definition metric_keys :: "string \<Rightarrow> string list" where
  "metric_keys metrics =
     [''train_'' @ metrics @ ''_mean'', ''test_'' @ metrics @ ''_mean'',
      ''train_'' @ metrics @ ''_std'', ''test_'' @ metrics @ ''_std'']"

definition has_metric_keys :: "pydict \<Rightarrow> string \<Rightarrow> bool" where
  "has_metric_keys model_metrics metrics =
     (model_metrics (''train_'' @ metrics @ ''_mean'') \<noteq> None \<and>
      model_metrics (''test_'' @ metrics @ ''_mean'') \<noteq> None \<and>
      model_metrics (''train_'' @ metrics @ ''_std'') \<noteq> None \<and>
      model_metrics (''test_'' @ metrics @ ''_std'') \<noteq> None)"

definition metric_column :: "pydict \<Rightarrow> string \<Rightarrow> (string \<times> pyval) list" where
  "metric_column model_metrics metrics =
     map (\<lambda>k. (k, the (model_metrics k))) (metric_keys metrics)"

text \<open>
  Examples: a frame without rows or columns, the metrics records of two runs of one
  model, and a record of another metric family.
\<close>

definition empty_frame :: comparison_frame where
  "empty_frame = \<lparr>row_index = [], named_columns = []\<rparr>"

definition rmse_metrics :: pydict where
  "rmse_metrics = [''train_rmse_mean'' \<mapsto> Scalar (Fin 2), ''test_rmse_mean'' \<mapsto> Scalar (Fin 3),
                   ''train_rmse_std'' \<mapsto> Scalar (Fin (1/2)), ''test_rmse_std'' \<mapsto> Scalar (Fin 1)]"

definition rmse_metrics2 :: pydict where
  "rmse_metrics2 = [''train_rmse_mean'' \<mapsto> Scalar (Fin 5), ''test_rmse_mean'' \<mapsto> Scalar (Fin 6),
                    ''train_rmse_std'' \<mapsto> Scalar (Fin 0), ''test_rmse_std'' \<mapsto> Scalar (Fin 1)]"

definition mae_metrics :: pydict where
  "mae_metrics = [''train_mae_mean'' \<mapsto> Scalar (Fin 1), ''test_mae_mean'' \<mapsto> Scalar (Fin 2),
                  ''train_mae_std'' \<mapsto> Scalar (Fin (1/4)), ''test_mae_std'' \<mapsto> Scalar (Fin (1/2))]"

section \<open>Metric functions\<close>

text \<open>
  The metric helpers delegate to scikit-learn.  The three library functions are
  modelled from the library's documented behaviour: each checks its inputs first
  (vectors of different lengths, or with no sample, raise \<^verbatim>\<open>ValueError\<close>);
  \<^verbatim>\<open>r2_score\<close> returns \<^verbatim>\<open>nan\<close> (with a warning) for fewer than two samples,
  \<open>1\<close> for a zero residual sum and \<open>0\<close> for a non-zero residual sum over a constant
  \<^verbatim>\<open>y_true\<close>.
\<close>

definition check_reg_targets :: "real list \<Rightarrow> real list \<Rightarrow> error + unit" where
  "check_reg_targets y_true y_pred =
     (if length y_true \<noteq> length y_pred
      then Inl (ValueError [''Found input variables with inconsistent numbers of samples''])
      else if y_true = [] then Inl (ValueError [''Found array with 0 sample(s)''])
      else Inr ())"

definition mean_squared_error :: "real list \<Rightarrow> real list \<Rightarrow> error + real" where
  "mean_squared_error y_true y_pred =
     (case check_reg_targets y_true y_pred of
        Inl e \<Rightarrow> Inl e
      | Inr _ \<Rightarrow> Inr (mean (map2 (\<lambda>t p. (t - p)\<^sup>2) y_true y_pred)))"

definition mean_absolute_error :: "real list \<Rightarrow> real list \<Rightarrow> error + real" where
  "mean_absolute_error y_true y_pred =
     (case check_reg_targets y_true y_pred of
        Inl e \<Rightarrow> Inl e
      | Inr _ \<Rightarrow> Inr (mean (map2 (\<lambda>t p. \<bar>p - t\<bar>) y_true y_pred)))"

definition r2_score :: "real list \<Rightarrow> real list \<Rightarrow> error + npfloat" where
  "r2_score y_true y_pred =
     (case check_reg_targets y_true y_pred of
        Inl e \<Rightarrow> Inl e
      | Inr _ \<Rightarrow>
          if length y_pred < 2 then Inr NaN
          else (let numerator = sum_list (map2 (\<lambda>t p. (t - p)\<^sup>2) y_true y_pred);
                    denominator = sum_list (map (\<lambda>t. (t - mean y_true)\<^sup>2) y_true)
                in Inr (Fin (if numerator \<noteq> 0 \<and> denominator \<noteq> 0 then 1 - numerator / denominator
                             else if numerator \<noteq> 0 then 0
                             else 1))))"

text \<open>\<^verbatim>\<open>rmse_score\<close>, lines 29-37 (the parameter \<^verbatim>\<open>form\<close> is not used by the code).\<close>

definition rmse_score :: "real list \<Rightarrow> real list \<Rightarrow> bool \<Rightarrow> error + npfloat formatted" where
  "rmse_score y_true y_pred as_int =
     (case mean_squared_error y_true y_pred of
        Inl e \<Rightarrow> Inl e
      | Inr mse \<Rightarrow>
          (let rmse = (if mse < 0 then NaN else Fin (sqrt mse))
           in if as_int then Inr (AsFloat rmse) else Inr (AsText rmse)))"

text \<open>\<^verbatim>\<open>mae_score\<close>, lines 39-46.\<close>

definition mae_score :: "real list \<Rightarrow> real list \<Rightarrow> bool \<Rightarrow> error + npfloat formatted" where
  "mae_score y_true y_pred as_int =
     (case mean_absolute_error y_true y_pred of
        Inl e \<Rightarrow> Inl e
      | Inr mae \<Rightarrow> if as_int then Inr (AsFloat (Fin mae)) else Inr (AsText (Fin mae)))"

text \<open>\<^verbatim>\<open>r2\<close>, lines 48-55.\<close>

definition r2 :: "real list \<Rightarrow> real list \<Rightarrow> bool \<Rightarrow> error + npfloat formatted" where
  "r2 y_true y_pred as_float =
     (case r2_score y_true y_pred of
        Inl e \<Rightarrow> Inl e
      | Inr score_r2 \<Rightarrow> if as_float then Inr (AsFloat score_r2) else Inr (AsText score_r2))"

section \<open>Cramer's V\<close>

subsection \<open>Numbers of three kinds\<close>

text \<open>
  The statistic mixes Python integers (the table total and shape), Python floats
  (quotients of integers) and numpy floats (the chi-squared statistic and what is
  computed from it).  They differ at a zero divisor: Python's division raises
  \<^verbatim>\<open>ZeroDivisionError\<close>, numpy's gives an infinity or \<^verbatim>\<open>nan\<close> with a
  warning.  The Python floats that arise here are finite and are modelled as reals.
\<close>

datatype pynum = PyInt int | PyFloat real | NpFloat npfloat

fun to_np :: "pynum \<Rightarrow> npfloat" where
  "to_np (PyInt i) = Fin (of_int i)"
| "to_np (PyFloat r) = Fin r"
| "to_np (NpFloat v) = v"

text \<open>numpy's division, subtraction, comparison and square root.\<close>

fun fdiv :: "npfloat \<Rightarrow> npfloat \<Rightarrow> npfloat" where
  "fdiv (Fin a) (Fin b) =
     (if b = 0 then (if a = 0 then NaN else if 0 < a then PInf else NInf) else Fin (a / b))"
| "fdiv NaN _ = NaN"
| "fdiv _ NaN = NaN"
| "fdiv (Fin a) _ = Fin 0"
| "fdiv PInf (Fin b) = (if b < 0 then NInf else PInf)"
| "fdiv NInf (Fin b) = (if b < 0 then PInf else NInf)"
| "fdiv _ _ = NaN"

fun fsub :: "npfloat \<Rightarrow> npfloat \<Rightarrow> npfloat" where
  "fsub (Fin a) (Fin b) = Fin (a - b)"
| "fsub NaN _ = NaN"
| "fsub _ NaN = NaN"
| "fsub PInf PInf = NaN"
| "fsub NInf NInf = NaN"
| "fsub PInf _ = PInf"
| "fsub NInf _ = NInf"
| "fsub (Fin a) PInf = NInf"
| "fsub (Fin a) NInf = PInf"

fun flt :: "npfloat \<Rightarrow> npfloat \<Rightarrow> bool" where
  "flt (Fin a) (Fin b) = (a < b)"
| "flt NaN _ = False"
| "flt _ NaN = False"
| "flt NInf NInf = False"
| "flt NInf _ = True"
| "flt PInf _ = False"
| "flt (Fin a) PInf = True"
| "flt (Fin a) NInf = False"

fun np_sqrt :: "npfloat \<Rightarrow> npfloat" where
  "np_sqrt (Fin r) = (if r < 0 then NaN else Fin (sqrt r))"
| "np_sqrt PInf = PInf"
| "np_sqrt NInf = NaN"
| "np_sqrt NaN = NaN"

text \<open>
  The operators \<^verbatim>\<open>/\<close> and \<^verbatim>\<open>-\<close> on the three kinds: between Python numbers
  they are Python's (the quotient is a float, a zero divisor raises); as soon as one
  operand is a numpy float they are numpy's.
\<close>

fun py_truediv :: "pynum \<Rightarrow> pynum \<Rightarrow> error + pynum" where
  "py_truediv (PyInt a) (PyInt b) =
     (if b = 0 then Inl ZeroDivisionError else Inr (PyFloat (of_int a / of_int b)))"
| "py_truediv (PyInt a) (PyFloat b) =
     (if b = 0 then Inl ZeroDivisionError else Inr (PyFloat (of_int a / b)))"
| "py_truediv (PyFloat a) (PyInt b) =
     (if b = 0 then Inl ZeroDivisionError else Inr (PyFloat (a / of_int b)))"
| "py_truediv (PyFloat a) (PyFloat b) =
     (if b = 0 then Inl ZeroDivisionError else Inr (PyFloat (a / b)))"
| "py_truediv x y = Inr (NpFloat (fdiv (to_np x) (to_np y)))"

fun py_sub :: "pynum \<Rightarrow> pynum \<Rightarrow> pynum" where
  "py_sub (PyInt a) (PyInt b) = PyInt (a - b)"
| "py_sub (PyInt a) (PyFloat b) = PyFloat (of_int a - b)"
| "py_sub (PyFloat a) (PyInt b) = PyFloat (a - of_int b)"
| "py_sub (PyFloat a) (PyFloat b) = PyFloat (a - b)"
| "py_sub x y = NpFloat (fsub (to_np x) (to_np y))"

definition py_lt :: "pynum \<Rightarrow> pynum \<Rightarrow> bool" where
  "py_lt x y = flt (to_np x) (to_np y)"

text \<open>
  Python's two-argument \<^verbatim>\<open>max\<close> and \<^verbatim>\<open>min\<close> return their first argument
  unless the second compares strictly greater (smaller); the result keeps the kind of
  the argument returned, so \<^verbatim>\<open>max(0, x)\<close> is the integer \<open>0\<close> unless \<open>x > 0\<close>.
\<close>

definition py_max :: "pynum \<Rightarrow> pynum \<Rightarrow> pynum" where
  "py_max a b = (if py_lt a b then b else a)"

definition py_min :: "pynum \<Rightarrow> pynum \<Rightarrow> pynum" where
  "py_min a b = (if py_lt b a then b else a)"

text \<open>
  \<^verbatim>\<open>round(value, ndigits)\<close>: an integer is returned as it is, a float is rounded
  to the nearest multiple of \<open>10\<^sup>-\<^sup>n\<close>, ties to the even one; infinities and
  \<^verbatim>\<open>nan\<close> are returned as they are.
\<close>

definition rint :: "real \<Rightarrow> int" where
  "rint x =
     (let f = \<lfloor>x\<rfloor>; d = x - of_int f
      in if d < 1/2 then f else if 1/2 < d then f + 1 else if even f then f else f + 1)"

definition round_to :: "real \<Rightarrow> nat \<Rightarrow> real" where
  "round_to r ndigits = of_int (rint (r * 10 ^ ndigits)) / 10 ^ ndigits"

fun py_round :: "pynum \<Rightarrow> nat \<Rightarrow> pynum" where
  "py_round (PyInt i) ndigits = PyInt i"
| "py_round (PyFloat r) ndigits = PyFloat (round_to r ndigits)"
| "py_round (NpFloat (Fin r)) ndigits = NpFloat (Fin (round_to r ndigits))"
| "py_round (NpFloat v) ndigits = NpFloat v"

subsection \<open>Contingency tables\<close>

text \<open>
  \<^verbatim>\<open>Series.value_counts()\<close>: the distinct values of a column with their counts
  (only its length is used by the code; the order by count is not modelled).
  \<^verbatim>\<open>pd.crosstab(x, y)\<close>: rows are the sorted distinct values of \<open>x\<close>, columns
  those of \<open>y\<close>, each cell the number of positions holding that pair.  The two
  columns are paired position by position, as two columns of one frame are.
\<close>

definition levels :: "'a::linorder list \<Rightarrow> 'a list" where
  "levels xs = sort (remdups xs)"

definition value_counts :: "'a::linorder list \<Rightarrow> ('a \<times> nat) list" where
  "value_counts xs = map (\<lambda>v. (v, count_list xs v)) (levels xs)"

definition crosstab :: "'a::linorder list \<Rightarrow> 'b::linorder list \<Rightarrow> nat list list" where
  "crosstab x y =
     (let pairs = zip x y
      in map (\<lambda>a. map (\<lambda>b. count_list pairs (a, b)) (levels (map snd pairs)))
           (levels (map fst pairs)))"

definition shape :: "nat list list \<Rightarrow> nat \<times> nat" where
  "shape m = (length m, (case m of [] \<Rightarrow> 0 | row # _ \<Rightarrow> length row))"

definition row_total :: "nat list list \<Rightarrow> nat \<Rightarrow> nat" where
  "row_total m i = sum_list (map (\<lambda>j. m ! i ! j) [0..<snd (shape m)])"

definition col_total :: "nat list list \<Rightarrow> nat \<Rightarrow> nat" where
  "col_total m j = sum_list (map (\<lambda>i. m ! i ! j) [0..<fst (shape m)])"

definition grand_total :: "nat list list \<Rightarrow> nat" where
  "grand_total m = sum_list (map (row_total m) [0..<fst (shape m)])"

subsection \<open>The chi-squared statistic of the library\<close>

text \<open>
  \<^verbatim>\<open>scipy.stats.chi2_contingency(observed, correction)[0]\<close>, modelled from the
  library's documented behaviour: it raises on a table of size zero and on a zero
  expected frequency; the degrees of freedom are
  \<^verbatim>\<open>size - sum(shape) + ndim - 1\<close>; with zero degrees of freedom the statistic is
  the Python float \<open>0.0\<close>; Yates' continuity correction (each observed value moved
  towards its expected value by at most \<open>0.5\<close>) is applied when \<^verbatim>\<open>correction\<close>
  is set and there is one degree of freedom; the statistic is the sum of
  \<open>(observed - expected)\<^sup>2 / expected\<close>, a numpy float.  On a table of zeros the
  expected frequencies, and with them the statistic, are \<^verbatim>\<open>nan\<close>.
\<close>

definition expected_freq :: "nat list list \<Rightarrow> nat \<Rightarrow> nat \<Rightarrow> real" where
  "expected_freq m i j = real (row_total m i) * real (col_total m j) / real (grand_total m)"

definition dof :: "nat list list \<Rightarrow> int" where
  "dof m = int (fst (shape m) * snd (shape m)) - int (fst (shape m) + snd (shape m)) + 2 - 1"

definition yates_applied :: "nat list list \<Rightarrow> bool \<Rightarrow> bool" where
  "yates_applied observed correction = (dof observed = 1 \<and> correction)"

definition yates :: "real \<Rightarrow> real \<Rightarrow> real" where
  "yates obs expected = obs + min (1/2) \<bar>expected - obs\<bar> * sgn (expected - obs)"

definition chi2_contingency :: "nat list list \<Rightarrow> bool \<Rightarrow> error + pynum" where
  "chi2_contingency observed correction =
     (let r = fst (shape observed); k = snd (shape observed)
      in if r * k = 0 then Inl (ValueError [''No data; observed has size 0.''])
         else if grand_total observed = 0
              then (if dof observed = 0 then Inr (PyFloat 0) else Inr (NpFloat NaN))
         else if list_ex (\<lambda>i. list_ex (\<lambda>j. expected_freq observed i j = 0) [0..<k]) [0..<r]
              then Inl (ValueError
                [''The internally computed table of expected frequencies has a zero element''])
         else if dof observed = 0 then Inr (PyFloat 0)
         else (let obs = (\<lambda>i j. if yates_applied observed correction
                               then yates (real (observed ! i ! j)) (expected_freq observed i j)
                               else real (observed ! i ! j))
               in Inr (NpFloat (Fin (sum_list (map (\<lambda>i. sum_list (map (\<lambda>j.
                     (obs i j - expected_freq observed i j)\<^sup>2 / expected_freq observed i j)
                     [0..<k])) [0..<r]))))))"

subsection \<open>The statistic and the matrix\<close>

text \<open>
  Lines 135-141 of \<^verbatim>\<open>cramers_corrected_stat\<close>: the bias-corrected value computed
  from the statistic and the table.  \<open>n\<close>, \<open>r\<close> and \<open>k\<close> are Python integers (the sum
  runs over the Python integers a pandas series yields), so the quotients by
  \<open>n - 1\<close> are Python's; \<open>phi2\<close> is of the kind of \<open>chi2\<close>; \<open>phi2corr\<close> is the
  integer \<open>0\<close> or \<open>phi2 - ...\<close>; the divisor of line 141 is a Python float.  Numbers
  are exact here: where the exact value sits on a comparison's boundary (a divisor
  that is exactly zero), floating-point rounding can decide otherwise.
\<close>

definition corrected_value :: "pynum \<Rightarrow> nat list list \<Rightarrow> error + pynum" where
  "corrected_value chi2 conf_matrix =
     (let n = int (grand_total conf_matrix)
      in case py_truediv chi2 (PyInt n) of
           Inl e \<Rightarrow> Inl e
         | Inr phi2 \<Rightarrow>
     (let r = int (fst (shape conf_matrix)); k = int (snd (shape conf_matrix))
      in case py_truediv (PyInt ((k - 1) * (r - 1))) (PyInt (n - 1)) of
           Inl e \<Rightarrow> Inl e
         | Inr t \<Rightarrow>
     (let phi2corr = py_max (PyInt 0) (py_sub phi2 t)
      in case py_truediv (PyInt ((r - 1)\<^sup>2)) (PyInt (n - 1)) of
           Inl e \<Rightarrow> Inl e
         | Inr tr \<Rightarrow>
     (let rcorr = py_sub (PyInt r) tr
      in case py_truediv (PyInt ((k - 1)\<^sup>2)) (PyInt (n - 1)) of
           Inl e \<Rightarrow> Inl e
         | Inr tk \<Rightarrow>
     (let kcorr = py_sub (PyInt k) tk
      in case py_truediv phi2corr
                (py_min (py_sub kcorr (PyInt 1)) (py_sub rcorr (PyInt 1))) of
           Inl e \<Rightarrow> Inl e
         | Inr q \<Rightarrow> Inr (NpFloat (np_sqrt (to_np q))))))))"

text \<open>
  \<^verbatim>\<open>cramers_corrected_stat(x, y)\<close>, lines 114-142: the lines printed and the value
  returned, or the exception raised.  The sentinel of the degenerate branches is the
  Python integer \<open>-1\<close>.
\<close>

definition cramers_corrected_stat ::
  "'a::linorder list \<Rightarrow> 'b::linorder list \<Rightarrow> string list \<times> (error + pynum)" where
  "cramers_corrected_stat x y =
     (if length (value_counts x) = 1
      then ([''First variable is constant''], Inr (py_round (PyInt (- 1)) 6))
      else if length (value_counts y) = 1
      then ([''Second variable is constant''], Inr (py_round (PyInt (- 1)) 6))
      else (let conf_matrix = crosstab x y;
                correct = (if fst (shape conf_matrix) = 2 then False else True)
            in case chi2_contingency conf_matrix correct of
                 Inl e \<Rightarrow> ([], Inl e)
               | Inr chi2 \<Rightarrow>
                   (case corrected_value chi2 conf_matrix of
                      Inl e \<Rightarrow> ([], Inl e)
                    | Inr result \<Rightarrow> ([], Inr (py_round result 6)))))"

text \<open>
  Running a printing, possibly failing computation over a list, in order: the output
  accumulates and the first exception stops the run.
\<close>

fun collect ::
  "('k \<Rightarrow> string list \<times> (error + 'v)) \<Rightarrow> 'k list \<Rightarrow> string list \<times> (error + 'v list)" where
  "collect f [] = ([], Inr [])"
| "collect f (k # ks) =
     (case f k of
        (out, Inl e) \<Rightarrow> (out, Inl e)
      | (out, Inr v) \<Rightarrow>
          (case collect f ks of
             (out', Inl e) \<Rightarrow> (out @ out', Inl e)
           | (out', Inr vs) \<Rightarrow> (out @ out', Inr (v # vs))))"

definition df_getitem :: "'a DataFrame \<Rightarrow> string \<Rightarrow> error + 'a list" where
  "df_getitem dataf var = (case map_of dataf var of None \<Rightarrow> Inl (KeyError var) | Some c \<Rightarrow> Inr c)"

text \<open>The frame \<^verbatim>\<open>cramers_matrix\<close> returns: its values, row by row, and its labels.\<close>

record matrix_frame =
  values_of :: "npfloat list list"
  columns_of :: "string list"
  index_of :: "string list"

text \<open>
  \<^verbatim>\<open>cramers_matrix(dataf)\<close>, lines 145-155.  One entry is
  \<^verbatim>\<open>round(cramers_corrected_stat(dataf[var1], dataf[var2]), 2)\<close>;
  \<^verbatim>\<open>np.array(rows)\<close> turns every entry into a numpy float.  With no column there is
  no row, and building the frame from the empty array under the (empty) labels
  raises \<^verbatim>\<open>ValueError\<close>.
\<close>

definition cramers_entry :: "'a::linorder DataFrame \<Rightarrow> string \<Rightarrow> string \<Rightarrow> string list \<times> (error + pynum)" where
  "cramers_entry dataf var1 var2 =
     (case df_getitem dataf var1 of
        Inl e \<Rightarrow> ([], Inl e)
      | Inr c1 \<Rightarrow>
          (case df_getitem dataf var2 of
             Inl e \<Rightarrow> ([], Inl e)
           | Inr c2 \<Rightarrow>
               (case cramers_corrected_stat c1 c2 of
                  (out, Inl e) \<Rightarrow> (out, Inl e)
                | (out, Inr cramers) \<Rightarrow> (out, Inr (py_round cramers 2)))))"

definition cramers_matrix :: "'a::linorder DataFrame \<Rightarrow> string list \<times> (error + matrix_frame)" where
  "cramers_matrix dataf =
     (case collect (\<lambda>var1. collect (\<lambda>var2. cramers_entry dataf var1 var2) (map fst dataf))
             (map fst dataf) of
        (out, Inl e) \<Rightarrow> (out, Inl e)
      | (out, Inr rows) \<Rightarrow>
          if rows = []
          then (out, Inl (ValueError [''Shape of passed values does not match the indices'']))
          else (out, Inr \<lparr>values_of = map (map to_np) rows,
                           columns_of = map fst dataf, index_of = map fst dataf\<rparr>))"

text \<open>
  A column of a frame of \<open>n\<close> rows is regular when it is constant or has a repeated
  value (fewer distinct values than rows).
\<close>

definition regular_column :: "nat \<Rightarrow> 'a list \<Rightarrow> bool" where
  "regular_column n c = (length c = n \<and> (card (set c) = 1 \<or> card (set c) < n))"

text \<open>An example frame of three categorical columns.\<close>

definition survey :: "nat DataFrame" where
  "survey = [(''sex'', [0, 1, 0, 1]), (''smoker'', [0, 0, 1, 1]), (''site'', [2, 2, 2, 2])]"

section \<open>Theorems\<close>

text \<open>
  C5.  With \<open>n = len(y_true)\<close> and \<open>p\<close> the width of the feature frame: when
  \<open>n > p + 1\<close>, \<^verbatim>\<open>adjusted_r2\<close> returns exactly
  \<open>1 - (1 - r2) * (n - 1) / (n - p - 1)\<close>; when \<open>n - p - 1 = 0\<close> the computation is a
  division by zero and no value is returned.
\<close>

theorem adjusted_r2_formula:
  "(snd (shape_df X_df) + 1 < length y_true \<longrightarrow>
      adjusted_r2 y_true X_df r2_value True =
        Inr (AsFloat (1 - (1 - r2_value) * (real (length y_true) - 1)
                            / (real (length y_true) - real (snd (shape_df X_df)) - 1)))) \<and>
   (length y_true = snd (shape_df X_df) + 1 \<longrightarrow>
      adjusted_r2 y_true X_df r2_value as_float = Inl ZeroDivisionError)"
  by (auto simp: adjusted_r2_def Let_def)

theorem adjusted_r2_formula_witness:
  "snd (shape_df [(''age'', [30, 41, 25, 37 :: int]), (''bmi'', [22, 27, 24, 31])]) + 1
      < length [7, 6, 8, 5 :: real] \<and>
   adjusted_r2 [7, 6, 8, 5] [(''age'', [30, 41, 25, 37 :: int]), (''bmi'', [22, 27, 24, 31])] (1/2) True
      = Inr (AsFloat (- 1 / 2)) \<and>
   length [7, 6, 8 :: real]
      = snd (shape_df [(''age'', [30, 41, 25 :: int]), (''bmi'', [22, 27, 24])]) + 1 \<and>
   adjusted_r2 [7, 6, 8] [(''age'', [30, 41, 25 :: int]), (''bmi'', [22, 27, 24])] (1/2) True
      = Inl ZeroDivisionError"
  using adjusted_r2_formula [of "[(''age'', [30, 41, 25, 37 :: int]), (''bmi'', [22, 27, 24, 31])]"
          "[7, 6, 8, 5]" "1/2" True]
        adjusted_r2_formula [of "[(''age'', [30, 41, 25 :: int]), (''bmi'', [22, 27, 24])]"
          "[7, 6, 8]" "1/2" True]
  by (simp add: shape_df_def)

text \<open>
  C10.  Called with both \<^verbatim>\<open>stratified\<close> and \<^verbatim>\<open>k_fold\<close> set,
  \<^verbatim>\<open>k_fold_cross_val\<close> passes the plain \<^verbatim>\<open>KFold\<close> splitter to
  \<^verbatim>\<open>cross_validate\<close>: the later \<^verbatim>\<open>k_fold\<close> branch overwrites the
  stratified choice.  (With an invalid score name the function raises before any
  splitter is chosen.)
\<close>

theorem k_fold_overrides_stratified:
  "k_fold_cross_val names cross_validate X y True True n_splits random_state model scoring rts =
     (if \<exists>s \<in> set scoring. s \<notin> set names
      then Inl (ValueError (filter (\<lambda>s. s \<notin> set names) scoring))
      else Inr (cross_validate model X y (KFold n_splits True random_state) scoring rts))"
proof -
  have flt: "map fst (filter snd (zip xs (map P xs))) = filter P xs" for xs :: "string list" and P
    by (induction xs) auto
  have ex: "list_ex (\<lambda>elt. elt) (map P xs) = (\<exists>s \<in> set xs. P s)" for xs :: "string list" and P
    by (induction xs) auto
  show ?thesis
    unfolding k_fold_cross_val_def Let_def flt ex by simp
qed

theorem k_fold_overrides_stratified_witness:
  "k_fold_cross_val [''r2'', ''neg_mean_absolute_error''] (\<lambda>m X y cv sc rts. cv)
       (0::nat) (0::nat) True True 5 42 (0::nat) [''r2''] False
     = Inr (KFold 5 True 42)"
  using k_fold_overrides_stratified [of "[''r2'', ''neg_mean_absolute_error'']"
          "\<lambda>m X y cv sc rts. cv" "0::nat" "0::nat" 5 42 "0::nat" "[''r2'']" False]
  by simp

subsection \<open>The normalizer's loop\<close>

lemma and_then_Inr [simp]: "and_then (s, Inr u) f = f s"
  by (simp add: and_then_def)

lemma and_then_Inl [simp]: "and_then (s, Inl e) f = (s, Inl e)"
  by (simp add: and_then_def)

lemma mapping_cases:
  "mapping s = Some m \<Longrightarrow>
     (s = ''neg_root_mean_squared_error'' \<and> m = ''rmse'') \<or>
     (s = ''neg_mean_absolute_error'' \<and> m = ''mae'') \<or>
     (s = ''r2'' \<and> m = ''r2'')"
  by (auto simp: mapping_def split: if_splits)

lemma raw_not_norm:
  assumes "mapping s = Some m" "mapping s' = Some m'"
  shows "''train_'' @ s \<noteq> ''train_'' @ m' @ ''_mean''"
        "''train_'' @ s \<noteq> ''train_'' @ m' @ ''_std''"
        "''test_'' @ s \<noteq> ''test_'' @ m' @ ''_mean''"
        "''test_'' @ s \<noteq> ''test_'' @ m' @ ''_std''"
        "''train_'' @ s \<noteq> ''test_'' @ x"
        "''test_'' @ s \<noteq> ''train_'' @ x"
  using mapping_cases [OF assms(1)] mapping_cases [OF assms(2)] by auto

lemma loop_body_valid:
  assumes "valid_score d s"
  shows "loop_body s d = (d ++ norm_entries d s, Inr ())"
proof -
  from assms obtain m tr te where m: "mapping s = Some m"
    and tr: "d (''train_'' @ s) = Some tr" and te: "d (''test_'' @ s) = Some te"
    by (auto simp: valid_score_def)
  note ne = raw_not_norm [OF m m]
  have "loop_body s d =
      (d(''train_'' @ m @ ''_mean'' \<mapsto> Scalar (np_mean (np_abs tr)),
         ''test_'' @ m @ ''_mean'' \<mapsto> Scalar (np_mean (np_abs te)),
         ''train_'' @ m @ ''_std'' \<mapsto> Scalar (np_std (np_abs tr)),
         ''test_'' @ m @ ''_std'' \<mapsto> Scalar (np_std (np_abs te))), Inr ())"
    using ne tr te by (simp add: loop_body_def assign_stat_def m)
  moreover have "d ++ norm_entries d s =
       d(''train_'' @ m @ ''_mean'' \<mapsto> Scalar (np_mean (np_abs tr)),
         ''test_'' @ m @ ''_mean'' \<mapsto> Scalar (np_mean (np_abs te)),
         ''train_'' @ m @ ''_std'' \<mapsto> Scalar (np_std (np_abs tr)),
         ''test_'' @ m @ ''_std'' \<mapsto> Scalar (np_std (np_abs te)))"
    using tr te by (simp add: norm_entries_def m)
  ultimately show ?thesis by simp
qed

lemma agree_raw_refl: "agree_raw d d"
  by (simp add: agree_raw_def)

lemma agree_raw_valid: "agree_raw d d' \<Longrightarrow> valid_score d' s = valid_score d s"
  by (auto simp: agree_raw_def valid_score_def)

lemma agree_raw_entries: "agree_raw d d' \<Longrightarrow> norm_entries d' s = norm_entries d s"
  by (cases "mapping s") (auto simp: agree_raw_def norm_entries_def)

lemma dom_norm_entries_subset: "dom (norm_entries d s) \<subseteq> norm_keys s"
  by (auto simp: norm_entries_def norm_keys_def split: option.splits if_splits)

lemma dom_norm_entries: "valid_score d s \<Longrightarrow> dom (norm_entries d s) = norm_keys s"
  by (auto simp: norm_entries_def norm_keys_def valid_score_def split: if_splits)

lemma norm_keys_not_raw:
  assumes "k \<in> norm_keys s'" "mapping s \<noteq> None"
  shows "k \<noteq> ''train_'' @ s" "k \<noteq> ''test_'' @ s"
proof -
  from assms obtain m m' where m: "mapping s = Some m" and m': "mapping s' = Some m'"
    by (auto simp: norm_keys_def split: option.splits)
  note ne = raw_not_norm [OF m m']
  from assms(1) have k: "k = ''train_'' @ m' @ ''_mean'' \<or> k = ''test_'' @ m' @ ''_mean'' \<or>
      k = ''train_'' @ m' @ ''_std'' \<or> k = ''test_'' @ m' @ ''_std''"
    by (simp add: norm_keys_def m')
  show "k \<noteq> ''train_'' @ s" using k ne by auto
  show "k \<noteq> ''test_'' @ s" using k ne by auto
qed

lemma agree_raw_add:
  assumes "agree_raw d0 d" "dom e \<subseteq> norm_keys s'"
  shows "agree_raw d0 (d ++ e)"
proof -
  have "(d ++ e) k = d k" if "k \<notin> norm_keys s'" for k
    using that assms(2) by (auto simp: map_add_def split: option.splits)
  moreover have "''train_'' @ s \<notin> norm_keys s'" "''test_'' @ s \<notin> norm_keys s'"
    if "mapping s \<noteq> None" for s
    using norm_keys_not_raw [OF _ that, of _ s'] by blast+
  ultimately show ?thesis
    using assms(1) by (simp add: agree_raw_def)
qed

lemma suffix_differs: "m @ ''_mean'' \<noteq> m' @ ''_std''"
proof
  assume "m @ ''_mean'' = m' @ ''_std''"
  then have "last (m @ ''_mean'') = last (m' @ ''_std'')" by simp
  then show False by simp
qed

lemma norm_keys_inj:
  assumes "k \<in> norm_keys s" "k \<in> norm_keys s'"
  shows "s = s'"
proof -
  from assms obtain m m' where m: "mapping s = Some m" and m': "mapping s' = Some m'"
    by (auto simp: norm_keys_def split: option.splits)
  have "m = m'"
    using assms suffix_differs [of m m'] suffix_differs [of m' m]
    by (auto simp: norm_keys_def m m')
  then show ?thesis
    using mapping_cases [OF m] mapping_cases [OF m'] by auto
qed

lemma score_loop_valid:
  assumes "agree_raw d0 d" "\<forall>s \<in> set scoring. valid_score d0 s"
  shows "score_loop scoring d = (written d0 scoring d, Inr ())"
  using assms
proof (induction scoring arbitrary: d)
  case Nil
  then show ?case by (simp add: written_def)
next
  case (Cons s rest)
  have v: "valid_score d s"
    using Cons.prems by (simp add: agree_raw_valid)
  have e: "norm_entries d s = norm_entries d0 s"
    using Cons.prems by (simp add: agree_raw_entries)
  have a: "agree_raw d0 (d ++ norm_entries d0 s)"
    using Cons.prems(1) dom_norm_entries_subset by (rule agree_raw_add)
  have "score_loop rest (d ++ norm_entries d0 s) = (written d0 rest (d ++ norm_entries d0 s), Inr ())"
    using Cons.IH [OF a] Cons.prems(2) by simp
  then show ?case
    by (simp add: loop_body_valid [OF v] e written_def)
qed

lemma written_outside:
  "\<forall>s \<in> set scoring. k \<notin> norm_keys s \<Longrightarrow> written d0 scoring d k = d k"
proof (induction scoring arbitrary: d)
  case Nil
  then show ?case by (simp add: written_def)
next
  case (Cons s rest)
  have "k \<notin> dom (norm_entries d0 s)"
    using Cons.prems dom_norm_entries_subset [of d0 s] by auto
  then have "(d ++ norm_entries d0 s) k = d k"
    by (auto simp: map_add_def split: option.splits)
  moreover have "written d0 (s # rest) d = written d0 rest (d ++ norm_entries d0 s)"
    by (simp add: written_def)
  ultimately show ?case
    using Cons.IH [of "d ++ norm_entries d0 s"] Cons.prems by simp
qed

lemma written_inside:
  assumes "s \<in> set scoring" "valid_score d0 s" "k \<in> norm_keys s"
  shows "written d0 scoring d k = norm_entries d0 s k"
  using assms(1)
proof (induction scoring arbitrary: d)
  case Nil
  then show ?case by simp
next
  case (Cons x rest)
  have step: "written d0 (x # rest) d = written d0 rest (d ++ norm_entries d0 x)"
    by (simp add: written_def)
  show ?case
  proof (cases "s \<in> set rest")
    case True
    then show ?thesis using Cons.IH step by simp
  next
    case False
    with Cons.prems have x: "x = s" by simp
    have "\<forall>s' \<in> set rest. k \<notin> norm_keys s'"
      using False norm_keys_inj [OF assms(3)] by blast
    then have "written d0 rest (d ++ norm_entries d0 x) k = (d ++ norm_entries d0 x) k"
      by (rule written_outside)
    moreover have "k \<in> dom (norm_entries d0 s)"
      using assms(2,3) by (simp add: dom_norm_entries)
    ultimately show ?thesis
      using step x by (auto simp: map_add_def split: option.splits)
  qed
qed

lemma dom_written:
  "\<forall>s \<in> set scoring. valid_score d0 s \<Longrightarrow>
     dom (written d0 scoring d) = dom d \<union> (\<Union>s \<in> set scoring. norm_keys s)"
proof (induction scoring arbitrary: d)
  case Nil
  then show ?case by (simp add: written_def)
next
  case (Cons s rest)
  have step: "written d0 (s # rest) d = written d0 rest (d ++ norm_entries d0 s)"
    by (simp add: written_def)
  have "dom (d ++ norm_entries d0 s) = dom d \<union> norm_keys s"
    using Cons.prems by (auto simp: dom_norm_entries)
  then show ?case
    using Cons.IH [of "d ++ norm_entries d0 s"] Cons.prems step by auto
qed

lemma loop_body_invalid:
  assumes "\<not> valid_score d s"
  shows "\<exists>k d'. loop_body s d = (d', Inl (KeyError k)) \<and>
           (\<forall>key. key \<notin> norm_keys s \<longrightarrow> d' key = d key) \<and>
           (mapping s = None \<longrightarrow> d' = d)"
proof (cases "d (''train_'' @ s)")
  case None
  then show ?thesis by (simp add: loop_body_def assign_stat_def)
next
  case (Some tr)
  show ?thesis
  proof (cases "mapping s")
    case None
    then show ?thesis using Some by (simp add: loop_body_def assign_stat_def)
  next
    case m: (Some m)
    with Some assms have te: "d (''test_'' @ s) = None"
      by (simp add: valid_score_def)
    have "loop_body s d =
        (d(''train_'' @ m @ ''_mean'' \<mapsto> Scalar (np_mean (np_abs tr))),
         Inl (KeyError (''test_'' @ s)))"
      using Some te by (simp add: loop_body_def assign_stat_def m)
    moreover have "''train_'' @ m @ ''_mean'' \<in> norm_keys s"
      by (simp add: norm_keys_def m)
    ultimately show ?thesis using m by auto
  qed
qed

lemma score_loop_append:
  "score_loop (xs @ ys) d = and_then (score_loop xs d) (score_loop ys)"
proof (induction xs arbitrary: d)
  case Nil
  then show ?case by simp
next
  case (Cons x xs)
  then show ?case
    by (cases "loop_body x d") (auto simp: and_then_def split: sum.splits)
qed

lemma score_loop_invalid:
  assumes "\<exists>s \<in> set scoring. \<not> valid_score d s"
  shows "\<exists>k d'. score_loop scoring d = (d', Inl (KeyError k)) \<and>
           (\<forall>s \<in> set (takeWhile (valid_score d) scoring). \<forall>key \<in> norm_keys s.
               d' key = norm_entries d s key) \<and>
           (mapping (hd scoring) = None \<longrightarrow> d' = d)"
proof -
  define pre where "pre = takeWhile (valid_score d) scoring"
  define rest where "rest = dropWhile (valid_score d) scoring"
  have split: "scoring = pre @ rest"
    by (simp add: pre_def rest_def)
  have "rest \<noteq> []"
    using assms by (auto simp: rest_def)
  then obtain s post where rest: "rest = s # post"
    by (cases rest) auto
  have bad: "\<not> valid_score d s"
    using hd_dropWhile [of "valid_score d" scoring] rest assms by (simp add: rest_def)
  have pre_ok: "\<forall>x \<in> set pre. valid_score d x"
    by (auto simp: pre_def dest: set_takeWhileD)
  define d1 where "d1 = written d pre d"
  have run_pre: "score_loop pre d = (d1, Inr ())"
    unfolding d1_def using agree_raw_refl pre_ok by (rule score_loop_valid)
  have agree: "agree_raw d d1"
    unfolding d1_def
  proof -
    have "agree_raw d d' \<Longrightarrow> agree_raw d (written d xs d')" for xs d'
    proof (induction xs arbitrary: d')
      case Nil
      then show ?case by (simp add: written_def)
    next
      case (Cons x xs)
      have "agree_raw d (d' ++ norm_entries d x)"
        using Cons.prems dom_norm_entries_subset by (rule agree_raw_add)
      from Cons.IH [OF this] show ?case by (simp add: written_def)
    qed
    then show "agree_raw d (written d pre d)" using agree_raw_refl by blast
  qed
  have "\<not> valid_score d1 s"
    using bad agree by (simp add: agree_raw_valid)
  from loop_body_invalid [OF this] obtain k d' where
    body: "loop_body s d1 = (d', Inl (KeyError k))" and
    frame: "\<forall>key. key \<notin> norm_keys s \<longrightarrow> d' key = d1 key" and
    unmapped: "mapping s = None \<longrightarrow> d' = d1"
    by (elim exE conjE)
  have run: "score_loop scoring d = (d', Inl (KeyError k))"
    by (simp add: split rest score_loop_append run_pre body)
  have partial: "d' key = norm_entries d x key" if "x \<in> set pre" "key \<in> norm_keys x" for x key
  proof -
    have "x \<noteq> s" using that(1) pre_ok bad by auto
    then have "key \<notin> norm_keys s"
      using norm_keys_inj [OF that(2)] by blast
    then have "d' key = d1 key" using frame by simp
    also have "\<dots> = norm_entries d x key"
      unfolding d1_def using that(1) _ that(2)
      by (rule written_inside) (use that(1) pre_ok in simp)
    finally show ?thesis .
  qed
  have first: "d' = d" if "mapping (hd scoring) = None"
  proof -
    have "\<not> valid_score d (hd scoring)"
      using that by (simp add: valid_score_def)
    moreover have "scoring \<noteq> []" using assms by auto
    ultimately have "pre = []"
      by (cases scoring) (auto simp: pre_def)
    then have "d1 = d" "hd scoring = s"
      using split rest by (simp_all add: d1_def written_def)
    then show ?thesis using unmapped that by simp
  qed
  show ?thesis
  proof (intro exI conjI ballI impI)
    show "score_loop scoring d = (d', Inl (KeyError k))" by (rule run)
  next
    fix x key
    assume "x \<in> set (takeWhile (valid_score d) scoring)" "key \<in> norm_keys x"
    then show "d' key = norm_entries d x key" using partial by (simp add: pre_def)
  next
    assume "mapping (hd scoring) = None"
    then show "d' = d" by (rule first)
  qed
qed

lemma sqrt_quarter: "sqrt (1/4) = 1/2"
  by (rule real_sqrt_unique) (simp_all add: power2_eq_square)

text \<open>
  C2 (as amended).  If some identifier of \<^verbatim>\<open>scoring\<close> is absent from the
  translation table, or one of its \<^verbatim>\<open>train_\<close>/\<^verbatim>\<open>test_\<close> raw keys is
  absent from \<^verbatim>\<open>perf_dict\<close>, then \<^verbatim>\<open>transform_cross_val_scores\<close> raises a
  \<^verbatim>\<open>KeyError\<close> and returns nothing.  The normalized keys of the metrics that
  precede the first failing one have been written by then and stay in
  \<^verbatim>\<open>perf_dict\<close>; when the first requested identifier is absent from the table,
  the store is left as it was.
\<close>

theorem transform_error_partial:
  assumes "\<exists>s \<in> set scoring. \<not> valid_score (h perf_dict) s"
  shows "(\<exists>k. snd (transform_cross_val_scores h perf_dict scoring) = Inl (KeyError k)) \<and>
         (\<forall>s \<in> set (takeWhile (valid_score (h perf_dict)) scoring). \<forall>key \<in> norm_keys s.
            fst (transform_cross_val_scores h perf_dict scoring) perf_dict key
              = norm_entries (h perf_dict) s key) \<and>
         (mapping (hd scoring) = None \<longrightarrow>
            fst (transform_cross_val_scores h perf_dict scoring) = h)"
proof -
  from score_loop_invalid [OF assms] obtain k d' where
    run: "score_loop scoring (h perf_dict) = (d', Inl (KeyError k))" and
    partial: "\<forall>s \<in> set (takeWhile (valid_score (h perf_dict)) scoring). \<forall>key \<in> norm_keys s.
               d' key = norm_entries (h perf_dict) s key" and
    first: "mapping (hd scoring) = None \<longrightarrow> d' = h perf_dict"
    by (elim exE conjE)
  show ?thesis
    using partial first by (auto simp: transform_cross_val_scores_def run)
qed

theorem transform_error_partial_witness:
  "(\<exists>k. snd (transform_cross_val_scores r2_scores 0 [''r2'', ''accuracy'']) = Inl (KeyError k)) \<and>
   fst (transform_cross_val_scores r2_scores 0 [''r2'', ''accuracy'']) 0 ''test_r2_mean''
     = Some (Scalar (Fin (1/2))) \<and>
   fst (transform_cross_val_scores r2_scores 0 [''accuracy'', ''r2'']) = r2_scores"
proof -
  have v: "valid_score (r2_scores 0) ''r2''" "\<not> valid_score (r2_scores 0) ''accuracy''"
    by (simp_all add: r2_scores_def valid_score_def mapping_def)
  have k: "''test_r2_mean'' \<in> norm_keys ''r2''"
    by (simp add: norm_keys_def mapping_def)
  have e: "norm_entries (r2_scores 0) ''r2'' ''test_r2_mean'' = Some (Scalar (Fin (1/2)))"
    by (simp add: norm_entries_def r2_scores_def mapping_def mean_def)
  have m: "mapping ''accuracy'' = None"
    by (simp add: mapping_def)
  show ?thesis
    using transform_error_partial [where h = r2_scores and perf_dict = 0
            and scoring = "[''r2'', ''accuracy'']"]
          transform_error_partial [where h = r2_scores and perf_dict = 0
            and scoring = "[''accuracy'', ''r2'']"]
          v k e m
    by simp
qed

text \<open>
  The claim as first stated (no partial keys written on error) fails: with
  \<^verbatim>\<open>scoring = ['r2', 'accuracy']\<close> the call raises on \<^verbatim>\<open>'accuracy'\<close> after the
  keys of \<^verbatim>\<open>'r2'\<close> are in the record.
\<close>

theorem transform_partial_keys_counterexample:
  "mapping ''accuracy'' = None \<and>
   r2_scores 0 ''train_r2_mean'' = None \<and>
   snd (transform_cross_val_scores r2_scores 0 [''r2'', ''accuracy'']) = Inl (KeyError ''train_accuracy'') \<and>
   fst (transform_cross_val_scores r2_scores 0 [''r2'', ''accuracy'']) 0 ''train_r2_mean''
     = Some (Scalar (Fin (1/2)))"
  by (simp add: r2_scores_def mapping_def transform_cross_val_scores_def
        loop_body_def assign_stat_def mean_def)

text \<open>
  C3.  For every requested metric and each partition,
  \<^verbatim>\<open>transform_cross_val_scores\<close> stores at \<^verbatim>\<open>{partition}_{metric}_mean\<close> the
  mean and at \<^verbatim>\<open>{partition}_{metric}_std\<close> the standard deviation of the absolute
  values of the raw per-fold scores.  The witness is the spec's example: fold scores
  \<open>[-1, -2, -3]\<close> and \<open>[-4, -5]\<close> give the means \<open>2\<close> and \<open>4.5\<close>.
\<close>

theorem transform_stores_mean_std:
  assumes "\<forall>s \<in> set scoring. valid_score (h perf_dict) s"
    and "score \<in> set scoring" and "mapping score = Some m"
    and "h perf_dict (''train_'' @ score) = Some tr"
    and "h perf_dict (''test_'' @ score) = Some te"
  shows "snd (transform_cross_val_scores h perf_dict scoring) = Inr perf_dict \<and>
         fst (transform_cross_val_scores h perf_dict scoring) perf_dict (''train_'' @ m @ ''_mean'')
           = Some (Scalar (np_mean (np_abs tr))) \<and>
         fst (transform_cross_val_scores h perf_dict scoring) perf_dict (''test_'' @ m @ ''_mean'')
           = Some (Scalar (np_mean (np_abs te))) \<and>
         fst (transform_cross_val_scores h perf_dict scoring) perf_dict (''train_'' @ m @ ''_std'')
           = Some (Scalar (np_std (np_abs tr))) \<and>
         fst (transform_cross_val_scores h perf_dict scoring) perf_dict (''test_'' @ m @ ''_std'')
           = Some (Scalar (np_std (np_abs te)))"
proof -
  let ?d = "h perf_dict"
  have run: "score_loop scoring ?d = (written ?d scoring ?d, Inr ())"
    using agree_raw_refl assms(1) by (rule score_loop_valid)
  have v: "valid_score ?d score" using assms(1,2) by simp
  have w: "written ?d scoring ?d k = norm_entries ?d score k" if "k \<in> norm_keys score" for k
    using assms(2) v that by (rule written_inside)
  have keys: "''train_'' @ m @ ''_mean'' \<in> norm_keys score"
    "''test_'' @ m @ ''_mean'' \<in> norm_keys score"
    "''train_'' @ m @ ''_std'' \<in> norm_keys score"
    "''test_'' @ m @ ''_std'' \<in> norm_keys score"
    by (simp_all add: norm_keys_def assms(3))
  have e: "norm_entries ?d score =
      [''train_'' @ m @ ''_mean'' \<mapsto> Scalar (np_mean (np_abs tr)),
       ''test_'' @ m @ ''_mean'' \<mapsto> Scalar (np_mean (np_abs te)),
       ''train_'' @ m @ ''_std'' \<mapsto> Scalar (np_std (np_abs tr)),
       ''test_'' @ m @ ''_std'' \<mapsto> Scalar (np_std (np_abs te))]"
    using assms(4,5) by (simp add: norm_entries_def assms(3))
  have vals: "norm_entries ?d score (''train_'' @ m @ ''_mean'') = Some (Scalar (np_mean (np_abs tr)))"
    "norm_entries ?d score (''test_'' @ m @ ''_mean'') = Some (Scalar (np_mean (np_abs te)))"
    "norm_entries ?d score (''train_'' @ m @ ''_std'') = Some (Scalar (np_std (np_abs tr)))"
    "norm_entries ?d score (''test_'' @ m @ ''_std'') = Some (Scalar (np_std (np_abs te)))"
    unfolding e by simp_all
  show ?thesis
    using w [OF keys(1)] w [OF keys(2)] w [OF keys(3)] w [OF keys(4)] vals
    by (simp add: transform_cross_val_scores_def run)
qed

theorem transform_stores_mean_std_witness:
  "snd (transform_cross_val_scores fold_scores 0 [''neg_root_mean_squared_error'']) = Inr 0 \<and>
   fst (transform_cross_val_scores fold_scores 0 [''neg_root_mean_squared_error'']) 0 ''train_rmse_mean''
     = Some (Scalar (Fin 2)) \<and>
   fst (transform_cross_val_scores fold_scores 0 [''neg_root_mean_squared_error'']) 0 ''test_rmse_mean''
     = Some (Scalar (Fin (9/2))) \<and>
   fst (transform_cross_val_scores fold_scores 0 [''neg_root_mean_squared_error'']) 0 ''train_rmse_std''
     = Some (Scalar (Fin (sqrt (2/3)))) \<and>
   fst (transform_cross_val_scores fold_scores 0 [''neg_root_mean_squared_error'']) 0 ''test_rmse_std''
     = Some (Scalar (Fin (1/2)))"
  using transform_stores_mean_std [where h = fold_scores and perf_dict = 0
          and scoring = "[''neg_root_mean_squared_error'']"
          and score = "''neg_root_mean_squared_error''" and m = "''rmse''"
          and tr = "Arr [-1, -2, -3]" and te = "Arr [-4, -5]"]
  by (simp add: fold_scores_def valid_score_def mapping_def mean_def power2_eq_square sqrt_quarter)

text \<open>
  C4 (as amended).  For a valid list of requested metrics,
  \<^verbatim>\<open>transform_cross_val_scores\<close> returns the address of the record it was given;
  no other object of the store changes; afterwards the record's keys are its former
  keys together with the four normalized keys of every requested metric, and every
  key that is not one of those normalized keys keeps its value.  (A normalized key
  that was already in the record is overwritten.)
\<close>

theorem transform_mutates_in_place:
  assumes "\<forall>s \<in> set scoring. valid_score (h perf_dict) s"
  shows "snd (transform_cross_val_scores h perf_dict scoring) = Inr perf_dict \<and>
         (\<forall>other. other \<noteq> perf_dict \<longrightarrow>
            fst (transform_cross_val_scores h perf_dict scoring) other = h other) \<and>
         dom (fst (transform_cross_val_scores h perf_dict scoring) perf_dict)
           = dom (h perf_dict) \<union> (\<Union>s \<in> set scoring. norm_keys s) \<and>
         (\<forall>k. k \<notin> (\<Union>s \<in> set scoring. norm_keys s) \<longrightarrow>
            fst (transform_cross_val_scores h perf_dict scoring) perf_dict k = h perf_dict k)"
proof -
  let ?d = "h perf_dict"
  have run: "score_loop scoring ?d = (written ?d scoring ?d, Inr ())"
    using agree_raw_refl assms(1) by (rule score_loop_valid)
  have "written ?d scoring ?d k = ?d k" if "k \<notin> (\<Union>s \<in> set scoring. norm_keys s)" for k
    using that by (intro written_outside) simp
  then show ?thesis
    using dom_written [OF assms, of ?d]
    by (simp add: transform_cross_val_scores_def run)
qed

theorem transform_mutates_in_place_witness:
  "snd (transform_cross_val_scores r2_scores 0 [''r2'']) = Inr 0 \<and>
   fst (transform_cross_val_scores r2_scores 0 [''r2'']) 1 = r2_scores 1 \<and>
   dom (fst (transform_cross_val_scores r2_scores 0 [''r2'']) 0)
     = {''train_r2'', ''test_r2'', ''train_r2_mean'', ''test_r2_mean'', ''train_r2_std'', ''test_r2_std''} \<and>
   fst (transform_cross_val_scores r2_scores 0 [''r2'']) 0 ''train_r2'' = Some (Arr [1/2, 1/2])"
  using transform_mutates_in_place [where h = r2_scores and perf_dict = 0 and scoring = "[''r2'']"]
  by (auto simp: r2_scores_def valid_score_def mapping_def norm_keys_def)

text \<open>
  The claim as first stated (every pre-existing key keeps its value) fails on a
  record that already holds a normalized key, as after an earlier call.
\<close>

theorem transform_overwrites_counterexample:
  "valid_score (rerun_scores 0) ''r2'' \<and>
   rerun_scores 0 ''train_r2_mean'' = Some (Scalar (Fin 7)) \<and>
   snd (transform_cross_val_scores rerun_scores 0 [''r2'']) = Inr 0 \<and>
   fst (transform_cross_val_scores rerun_scores 0 [''r2'']) 0 ''train_r2_mean'' = Some (Scalar (Fin (1/2)))"
  by (simp add: rerun_scores_def valid_score_def mapping_def transform_cross_val_scores_def
        loop_body_def assign_stat_def mean_def)

subsection \<open>The comparison table\<close>

lemma fill_ok:
  assumes "has_metric_keys mm m"
  shows "fill_comparison_df t m name mm = (setitem_dict t name (metric_column mm m), Inr ())"
  using assms
  by (auto simp: has_metric_keys_def fill_comparison_df_def getitem_def metric_column_def
        metric_keys_def)

lemma map_of_zip_map_same:
  "map_of (zip xs (map f xs)) k = (if k \<in> set xs then Some (f k) else None)"
  by (induction xs) auto

lemma map_of_metric_column:
  "map_of (metric_column mm m) k
     = (if k \<in> set (metric_keys m) then Some (the (mm k)) else None)"
  by (simp add: metric_column_def map_of_map_restrict restrict_map_def)

lemma metric_column_keys: "map fst (metric_column mm m) = metric_keys m"
  by (simp add: metric_column_def comp_def)

lemma metric_keys_nonempty: "metric_keys m \<noteq> []" "length (metric_keys m) = 4"
  by (simp_all add: metric_keys_def)

lemma setitem_dict_twice:
  assumes "map fst e1 = map fst e2" "e1 \<noteq> []"
  shows "setitem_dict (setitem_dict t name e1) name e2 = setitem_dict t name e2"
proof -
  have e2: "e2 \<noteq> []" "length e2 = length e1"
    using assms by (auto dest: arg_cong [where f = length])
  show ?thesis
  proof (cases "row_index t = []")
    case True
    then show ?thesis
      using assms e2 by (simp add: setitem_dict_def Let_def)
  next
    case False
    then show ?thesis
      by (simp add: setitem_dict_def Let_def)
  qed
qed

lemma setitem_dict_index:
  "row_index (setitem_dict t name e)
     = (if row_index t = [] \<and> e \<noteq> [] then map fst e else row_index t)"
  by (simp add: setitem_dict_def Let_def)

lemma setitem_dict_column:
  "map_of (named_columns (setitem_dict t name e)) name
     = Some (map (\<lambda>label. case map_of e label of None \<Rightarrow> Scalar NaN | Some v \<Rightarrow> v)
          (row_index (setitem_dict t name e)))"
  by (simp add: setitem_dict_def Let_def update_conv')

lemma setitem_dict_names:
  "map fst (named_columns (setitem_dict t name e))
     = (if name \<in> set (map fst (named_columns t)) then map fst (named_columns t)
        else map fst (named_columns t) @ [name])"
  by (auto simp: setitem_dict_def Let_def update_keys comp_def image_image)

lemma setitem_dict_others:
  assumes "row_index t \<noteq> []" "other \<noteq> name"
  shows "map_of (named_columns (setitem_dict t name e)) other = map_of (named_columns t) other"
  using assms by (simp add: setitem_dict_def Let_def update_conv')

text \<open>
  C6 (as amended).  For a table that has no rows yet, or whose row labels are the four
  keys \<^verbatim>\<open>{train,test}_{metric}_{mean,std}\<close> of the metric family, and a metrics
  record that has these four keys, \<^verbatim>\<open>fill_comparison_df\<close> returns \<^verbatim>\<open>None\<close>
  and the column of \<^verbatim>\<open>model_name\<close> then holds, against the row labels, exactly
  those four key-value pairs.  A column of that name is replaced where it stands,
  otherwise the column is appended; on a table that had rows, the row labels and the
  other columns are untouched; and a second call for the same \<^verbatim>\<open>model_name\<close>
  and family leaves the table the second call alone would have produced.
\<close>

theorem fill_comparison_df_column:
  assumes "has_metric_keys model_metrics metrics"
    and "row_index comparison_df = [] \<or> set (row_index comparison_df) = set (metric_keys metrics)"
  shows "snd (fill_comparison_df comparison_df metrics model_name model_metrics) = Inr () \<and>
         set (row_index (fst (fill_comparison_df comparison_df metrics model_name model_metrics)))
           = set (metric_keys metrics) \<and>
         (\<exists>cells.
            map_of (named_columns (fst (fill_comparison_df comparison_df metrics model_name model_metrics)))
              model_name = Some cells \<and>
            length cells
              = length (row_index (fst (fill_comparison_df comparison_df metrics model_name model_metrics))) \<and>
            map_of (zip (row_index (fst (fill_comparison_df comparison_df metrics model_name model_metrics)))
                     cells)
              = map_of [(''train_'' @ metrics @ ''_mean'', the (model_metrics (''train_'' @ metrics @ ''_mean''))),
                        (''test_'' @ metrics @ ''_mean'', the (model_metrics (''test_'' @ metrics @ ''_mean''))),
                        (''train_'' @ metrics @ ''_std'', the (model_metrics (''train_'' @ metrics @ ''_std''))),
                        (''test_'' @ metrics @ ''_std'', the (model_metrics (''test_'' @ metrics @ ''_std'')))]) \<and>
         map fst (named_columns (fst (fill_comparison_df comparison_df metrics model_name model_metrics)))
           = (if model_name \<in> set (map fst (named_columns comparison_df))
              then map fst (named_columns comparison_df)
              else map fst (named_columns comparison_df) @ [model_name]) \<and>
         (row_index comparison_df \<noteq> [] \<longrightarrow>
            row_index (fst (fill_comparison_df comparison_df metrics model_name model_metrics))
              = row_index comparison_df \<and>
            (\<forall>other. other \<noteq> model_name \<longrightarrow>
               map_of (named_columns (fst (fill_comparison_df comparison_df metrics model_name model_metrics)))
                 other = map_of (named_columns comparison_df) other)) \<and>
         (has_metric_keys model_metrics' metrics \<longrightarrow>
            fst (fill_comparison_df
                   (fst (fill_comparison_df comparison_df metrics model_name model_metrics))
                   metrics model_name model_metrics')
              = fst (fill_comparison_df comparison_df metrics model_name model_metrics'))"
proof -
  let ?e = "metric_column model_metrics metrics"
  let ?t = "setitem_dict comparison_df model_name ?e"
  note f = fill_ok [OF assms(1)]
  have e: "map fst ?e = metric_keys metrics" "?e \<noteq> []"
    using metric_keys_nonempty(1) [of metrics] metric_column_keys [of model_metrics metrics]
    by auto
  have idx: "set (row_index ?t) = set (metric_keys metrics)"
    using assms(2) e by (auto simp: setitem_dict_index)
  define cells where
    "cells = map (\<lambda>label. case map_of ?e label of None \<Rightarrow> Scalar NaN | Some v \<Rightarrow> v) (row_index ?t)"
  have col: "map_of (named_columns ?t) model_name = Some cells"
    unfolding cells_def by (rule setitem_dict_column)
  have len: "length cells = length (row_index ?t)"
    by (simp add: cells_def)
  have "map_of (zip (row_index ?t) cells) k = map_of ?e k" for k
    unfolding cells_def map_of_zip_map_same using idx
    by (simp add: map_of_metric_column)
  then have pairs: "map_of (zip (row_index ?t) cells) = map_of ?e"
    by (rule ext)
  have spelled: "?e =
      [(''train_'' @ metrics @ ''_mean'', the (model_metrics (''train_'' @ metrics @ ''_mean''))),
       (''test_'' @ metrics @ ''_mean'', the (model_metrics (''test_'' @ metrics @ ''_mean''))),
       (''train_'' @ metrics @ ''_std'', the (model_metrics (''train_'' @ metrics @ ''_std''))),
       (''test_'' @ metrics @ ''_std'', the (model_metrics (''test_'' @ metrics @ ''_std'')))]"
    by (simp add: metric_column_def metric_keys_def)
  have twice: "fst (fill_comparison_df ?t metrics model_name model_metrics')
      = fst (fill_comparison_df comparison_df metrics model_name model_metrics')"
    if "has_metric_keys model_metrics' metrics"
    unfolding fill_ok [OF that] fst_conv
    by (rule setitem_dict_twice) (use e in \<open>simp_all add: metric_column_keys\<close>)
  have 1: "snd (fill_comparison_df comparison_df metrics model_name model_metrics) = Inr ()"
    by (simp add: f)
  have 3: "\<exists>cells. map_of (named_columns ?t) model_name = Some cells \<and>
      length cells = length (row_index ?t) \<and>
      map_of (zip (row_index ?t) cells) =
        map_of [(''train_'' @ metrics @ ''_mean'', the (model_metrics (''train_'' @ metrics @ ''_mean''))),
                (''test_'' @ metrics @ ''_mean'', the (model_metrics (''test_'' @ metrics @ ''_mean''))),
                (''train_'' @ metrics @ ''_std'', the (model_metrics (''train_'' @ metrics @ ''_std''))),
                (''test_'' @ metrics @ ''_std'', the (model_metrics (''test_'' @ metrics @ ''_std'')))]"
    using col len pairs unfolding spelled by blast
  have 5: "row_index comparison_df \<noteq> [] \<longrightarrow>
      row_index ?t = row_index comparison_df \<and>
      (\<forall>other. other \<noteq> model_name \<longrightarrow>
         map_of (named_columns ?t) other = map_of (named_columns comparison_df) other)"
    by (simp add: setitem_dict_index setitem_dict_others)
  show ?thesis
    unfolding f fst_conv snd_conv
    using idx 3 setitem_dict_names [of comparison_df model_name ?e] 5 twice
    unfolding f fst_conv by (intro conjI impI) simp_all
qed

theorem fill_comparison_df_column_witness:
  "snd (fill_comparison_df empty_frame ''rmse'' ''linear_regression'' rmse_metrics) = Inr () \<and>
   set (row_index (fst (fill_comparison_df empty_frame ''rmse'' ''linear_regression'' rmse_metrics)))
     = {''train_rmse_mean'', ''test_rmse_mean'', ''train_rmse_std'', ''test_rmse_std''} \<and>
   map fst (named_columns (fst (fill_comparison_df empty_frame ''rmse'' ''linear_regression''
       rmse_metrics))) = [''linear_regression''] \<and>
   fst (fill_comparison_df
          (fst (fill_comparison_df empty_frame ''rmse'' ''linear_regression'' rmse_metrics))
          ''rmse'' ''linear_regression'' rmse_metrics2)
     = fst (fill_comparison_df empty_frame ''rmse'' ''linear_regression'' rmse_metrics2)"
proof -
  have k: "has_metric_keys rmse_metrics ''rmse''" "has_metric_keys rmse_metrics2 ''rmse''"
    by (simp_all add: has_metric_keys_def rmse_metrics_def rmse_metrics2_def)
  have i: "row_index empty_frame = [] \<or> set (row_index empty_frame) = set (metric_keys ''rmse'')"
    "named_columns empty_frame = []"
    by (simp_all add: empty_frame_def)
  have s: "set (metric_keys ''rmse'')
      = {''train_rmse_mean'', ''test_rmse_mean'', ''train_rmse_std'', ''test_rmse_std''}"
    by (simp add: metric_keys_def)
  show ?thesis
    using fill_comparison_df_column [OF k(1) i(1), of "''linear_regression''" rmse_metrics2] k(2) i(2)
    unfolding s by simp
qed

text \<open>
  The claim as first stated (every table) fails on a table that holds another metric
  family: the dictionary is aligned on the row labels, none of which is one of its
  keys, and the column is filled with \<^verbatim>\<open>nan\<close>.
\<close>

theorem other_family_column_counterexample:
  "has_metric_keys mae_metrics ''mae'' \<and>
   fst (fill_comparison_df empty_frame ''rmse'' ''linear_regression'' rmse_metrics)
     = \<lparr>row_index = [''train_rmse_mean'', ''test_rmse_mean'', ''train_rmse_std'', ''test_rmse_std''],
        named_columns = [(''linear_regression'',
          [Scalar (Fin 2), Scalar (Fin 3), Scalar (Fin (1/2)), Scalar (Fin 1)])]\<rparr> \<and>
   fill_comparison_df
       (fst (fill_comparison_df empty_frame ''rmse'' ''linear_regression'' rmse_metrics))
       ''mae'' ''random_forest'' mae_metrics
     = (\<lparr>row_index = [''train_rmse_mean'', ''test_rmse_mean'', ''train_rmse_std'', ''test_rmse_std''],
         named_columns = [(''linear_regression'',
            [Scalar (Fin 2), Scalar (Fin 3), Scalar (Fin (1/2)), Scalar (Fin 1)]),
          (''random_forest'', [Scalar NaN, Scalar NaN, Scalar NaN, Scalar NaN])]\<rparr>, Inr ())"
  by (simp add: has_metric_keys_def mae_metrics_def rmse_metrics_def empty_frame_def
        fill_comparison_df_def getitem_def setitem_dict_def)

subsection \<open>Perfect fit\<close>

lemma sum_list_zero_diffs:
  "sum_list (map2 (\<lambda>t p. (t - p)\<^sup>2) v v) = (0::real)"
  "sum_list (map2 (\<lambda>t p. \<bar>p - t\<bar>) v v) = (0::real)"
  by (induction v) simp_all

text \<open>
  C9 (as amended).  For every non-empty vector \<open>v\<close>, \<open>rmse(v, v) = 0\<close> and
  \<open>mae(v, v) = 0\<close>; for every vector \<open>v\<close> with at least two elements,
  \<open>r2(v, v) = 1\<close>.
\<close>

theorem perfect_fit_metrics:
  "(v \<noteq> [] \<longrightarrow> rmse_score v v True = Inr (AsFloat (Fin 0)) \<and>
                mae_score v v True = Inr (AsFloat (Fin 0))) \<and>
   (2 \<le> length v \<longrightarrow> r2 v v True = Inr (AsFloat (Fin 1)))"
  by (auto simp: rmse_score_def mae_score_def r2_def mean_squared_error_def
        mean_absolute_error_def r2_score_def check_reg_targets_def mean_def
        sum_list_zero_diffs Let_def)

theorem perfect_fit_metrics_witness:
  "rmse_score [3, 1, 4] [3, 1, 4] True = Inr (AsFloat (Fin 0)) \<and>
   mae_score [3, 1, 4] [3, 1, 4] True = Inr (AsFloat (Fin 0)) \<and>
   r2 [3, 1, 4] [3, 1, 4] True = Inr (AsFloat (Fin 1))"
  using perfect_fit_metrics [of "[3, 1, 4]"] by simp

text \<open>
  The claim as first stated (every vector) fails on a single observation, where the
  library's \<^verbatim>\<open>r2_score\<close> returns \<^verbatim>\<open>nan\<close>, and on the empty vector, where
  the library raises.
\<close>

theorem single_sample_r2_counterexample:
  "r2 [5] [5] True = Inr (AsFloat NaN) \<and>
   rmse_score [] [] True = Inl (ValueError [''Found array with 0 sample(s)''])"
  by (simp add: r2_def r2_score_def rmse_score_def mean_squared_error_def check_reg_targets_def)

subsection \<open>Cramer's V: the sentinel and the continuity correction\<close>

lemma rint_of_int: "rint (of_int z) = z"
  by (simp add: rint_def)

lemma round_to_quarter: "round_to (1/4) 6 = 1/4"
proof -
  have "(1/4 :: real) * 10 ^ 6 = of_int 250000" by simp
  then have "rint ((1/4 :: real) * 10 ^ 6) = 250000"
    using rint_of_int [of 250000] by simp
  then show ?thesis by (simp add: round_to_def)
qed

lemma round_to_zero: "round_to 0 n = 0"
  using rint_of_int [of 0] by (simp add: round_to_def)

lemma sqrt_sixteenth: "sqrt (1/16) = 1/4"
  by (rule real_sqrt_unique) (simp_all add: power2_eq_square)

lemma set_levels: "set (levels xs) = set xs"
  by (simp add: levels_def)

lemma distinct_levels: "distinct (levels xs)"
  by (simp add: levels_def)

lemma levels_empty_iff: "levels xs = [] \<longleftrightarrow> xs = []"
  using set_levels [of xs] by (metis set_empty)

lemma length_levels: "length (levels xs) = card (set xs)"
  using distinct_card [OF distinct_levels, of xs] by (simp add: set_levels)

lemma length_value_counts: "length (value_counts xs) = card (set xs)"
  by (simp add: value_counts_def length_levels)

lemma shape_table:
  "A \<noteq> [] \<Longrightarrow> shape (map (\<lambda>a. map (c a) B) A) = (length A, length B)"
  by (cases A) (simp_all add: shape_def)

lemma shape_crosstab:
  assumes "length x = length y" "x \<noteq> []"
  shows "shape (crosstab x y) = (card (set x), card (set y))"
proof -
  have "levels x \<noteq> []" using assms(2) by (simp add: levels_empty_iff)
  then show ?thesis
    using assms(1) by (simp add: crosstab_def shape_table length_levels)
qed

lemma dof_one:
  assumes "fst (shape m) \<noteq> 0" "dof m = 1"
  shows "fst (shape m) = 2"
proof -
  define r k where "r = int (fst (shape m))" and "k = int (snd (shape m))"
  have "(r - 1) * (k - 1) = 1"
    using assms(2) by (simp add: dof_def r_def k_def algebra_simps)
  moreover have "0 \<le> r - 1" using assms(1) by (simp add: r_def)
  ultimately have "r - 1 = 1"
    by (metis zmult_eq_1_iff zero_le_one not_one_le_zero neg_le_0_iff_le minus_equation_iff linorder_not_less order_less_le)
  then show ?thesis by (simp add: r_def)
qed

lemma chi2_without_correction:
  assumes "\<not> yates_applied m c"
  shows "chi2_contingency m c = chi2_contingency m False"
proof -
  have same: "yates_applied m c = yates_applied m False"
    using assms by (simp add: yates_applied_def)
  show ?thesis
    unfolding chi2_contingency_def same by (rule refl)
qed

lemma flag_without_effect:
  assumes "fst (shape m) \<noteq> 0"
  shows "\<not> yates_applied m (fst (shape m) \<noteq> 2)"
    and "chi2_contingency m (fst (shape m) \<noteq> 2) = chi2_contingency m False"
proof -
  show no: "\<not> yates_applied m (fst (shape m) \<noteq> 2)"
    using dof_one [OF assms] by (auto simp: yates_applied_def)
  show "chi2_contingency m (fst (shape m) \<noteq> 2) = chi2_contingency m False"
    using no by (rule chi2_without_correction)
qed

lemma stat_unfold:
  assumes "length (value_counts x) \<noteq> 1" "length (value_counts y) \<noteq> 1"
  shows "cramers_corrected_stat x y =
    (case chi2_contingency (crosstab x y) (fst (shape (crosstab x y)) \<noteq> 2) of
       Inl e \<Rightarrow> ([], Inl e)
     | Inr chi2 \<Rightarrow>
         (case corrected_value chi2 (crosstab x y) of
            Inl e \<Rightarrow> ([], Inl e)
          | Inr result \<Rightarrow> ([], Inr (py_round result 6))))"
proof -
  have "(if fst (shape (crosstab x y)) = 2 then False else True) = (fst (shape (crosstab x y)) \<noteq> 2)"
    by simp
  then show ?thesis
    using assms unfolding cramers_corrected_stat_def Let_def by simp
qed

lemma crosstab_example:
  "crosstab [3, 3, 7, 7, 7, 7 :: nat] [3, 3, 3, 3, 7, 7 :: nat] = [[2, 0], [2, 2]]"
  by (simp add: crosstab_def levels_def)

lemma chi2_example_plain: "chi2_contingency [[2, 0], [2, 2]] False = Inr (NpFloat (Fin (3/2)))"
  by (simp add: chi2_contingency_def shape_def grand_total_def row_total_def col_total_def
        expected_freq_def dof_def yates_applied_def upt_rec power2_eq_square)

lemma chi2_example_yates: "chi2_contingency [[2, 0], [2, 2]] True = Inr (NpFloat (Fin (3/32)))"
  by (simp add: chi2_contingency_def shape_def grand_total_def row_total_def col_total_def
        expected_freq_def dof_def yates_applied_def yates_def upt_rec power2_eq_square)

lemma value_example_plain:
  "corrected_value (NpFloat (Fin (3/2))) [[2, 0], [2, 2]] = Inr (NpFloat (Fin (1/4)))"
  by (simp add: corrected_value_def shape_def grand_total_def row_total_def upt_rec
        py_max_def py_min_def py_lt_def power2_eq_square sqrt_sixteenth)

lemma value_example_yates:
  "corrected_value (NpFloat (Fin (3/32))) [[2, 0], [2, 2]] = Inr (NpFloat (Fin 0))"
  by (simp add: corrected_value_def shape_def grand_total_def row_total_def upt_rec
        py_max_def py_min_def py_lt_def power2_eq_square)

text \<open>
  C7.  When at least one of the two columns has exactly one distinct value,
  \<^verbatim>\<open>cramers_corrected_stat\<close> raises nothing: it prints one diagnostic line (naming
  the first column when that one is constant, else the second) and returns the
  sentinel \<open>-1\<close>.
\<close>

theorem constant_column_sentinel:
  assumes "length (value_counts x) = 1 \<or> length (value_counts y) = 1"
  shows "cramers_corrected_stat x y =
    ([if length (value_counts x) = 1 then ''First variable is constant''
      else ''Second variable is constant''], Inr (PyInt (- 1)))"
  using assms unfolding cramers_corrected_stat_def by auto

theorem constant_column_sentinel_witness:
  "cramers_corrected_stat [2, 2, 2 :: nat] [0, 1, 0 :: nat]
     = ([''First variable is constant''], Inr (PyInt (- 1))) \<and>
   cramers_corrected_stat [0, 1, 0 :: nat] [2, 2, 2 :: nat]
     = ([''Second variable is constant''], Inr (PyInt (- 1)))"
proof -
  have a: "length (value_counts [2, 2, 2 :: nat]) = 1" "length (value_counts [0, 1, 0 :: nat]) \<noteq> 1"
    by (simp_all add: value_counts_def levels_def)
  show ?thesis
    using constant_column_sentinel [of "[2, 2, 2 :: nat]" "[0, 1, 0 :: nat]"]
          constant_column_sentinel [of "[0, 1, 0 :: nat]" "[2, 2, 2 :: nat]"] a
    by simp
qed

text \<open>
  C1 (as amended).  For equal-length columns with at least two distinct values each,
  \<^verbatim>\<open>cramers_corrected_stat\<close> calls the chi-squared routine with
  \<^verbatim>\<open>correction=False\<close> exactly when the contingency table has two rows and with
  \<^verbatim>\<open>correction=True\<close> otherwise, and returns what lines 135-142 make of that
  statistic.  The routine corrects only a table with one degree of freedom, that is a
  2x2 table, so the continuity correction is never applied: the value returned is
  always the one computed from the uncorrected statistic.
\<close>

theorem continuity_correction_never_applied:
  assumes "length x = length y"
    and "2 \<le> length (value_counts x)" and "2 \<le> length (value_counts y)"
  shows "cramers_corrected_stat x y =
           (case chi2_contingency (crosstab x y) (fst (shape (crosstab x y)) \<noteq> 2) of
              Inl e \<Rightarrow> ([], Inl e)
            | Inr chi2 \<Rightarrow>
                (case corrected_value chi2 (crosstab x y) of
                   Inl e \<Rightarrow> ([], Inl e)
                 | Inr result \<Rightarrow> ([], Inr (py_round result 6)))) \<and>
         \<not> yates_applied (crosstab x y) (fst (shape (crosstab x y)) \<noteq> 2) \<and>
         cramers_corrected_stat x y =
           (case chi2_contingency (crosstab x y) False of
              Inl e \<Rightarrow> ([], Inl e)
            | Inr chi2 \<Rightarrow>
                (case corrected_value chi2 (crosstab x y) of
                   Inl e \<Rightarrow> ([], Inl e)
                 | Inr result \<Rightarrow> ([], Inr (py_round result 6))))"
proof -
  have ne: "length (value_counts x) \<noteq> 1" "length (value_counts y) \<noteq> 1"
    using assms(2,3) by simp_all
  have "x \<noteq> []" using assms(2) by (auto simp: length_value_counts)
  then have nz: "fst (shape (crosstab x y)) \<noteq> 0"
    using assms by (simp add: shape_crosstab length_value_counts)
  note u = stat_unfold [OF ne]
  show ?thesis
    using u flag_without_effect(1) [OF nz] u [unfolded flag_without_effect(2) [OF nz]]
    by (intro conjI)
qed

theorem continuity_correction_never_applied_witness:
  "cramers_corrected_stat [3, 3, 7, 7, 7, 7 :: nat] [3, 3, 3, 3, 7, 7 :: nat]
     = ([], Inr (NpFloat (Fin (1/4)))) \<and>
   \<not> yates_applied (crosstab [3, 3, 7, 7, 7, 7 :: nat] [3, 3, 3, 3, 7, 7 :: nat])
       (fst (shape (crosstab [3, 3, 7, 7, 7, 7 :: nat] [3, 3, 3, 3, 7, 7 :: nat])) \<noteq> 2)"
proof -
  have a: "length [3, 3, 7, 7, 7, 7 :: nat] = length [3, 3, 3, 3, 7, 7 :: nat]"
    "2 \<le> length (value_counts [3, 3, 7, 7, 7, 7 :: nat])"
    "2 \<le> length (value_counts [3, 3, 3, 3, 7, 7 :: nat])"
    by (simp_all add: value_counts_def levels_def)
  note t = continuity_correction_never_applied [OF a]
  have "cramers_corrected_stat [3, 3, 7, 7, 7, 7 :: nat] [3, 3, 3, 3, 7, 7 :: nat]
      = ([], Inr (py_round (NpFloat (Fin (1/4))) 6))"
    using t [THEN conjunct2, THEN conjunct2]
    unfolding crosstab_example chi2_example_plain
    by (simp add: value_example_plain)
  then have "cramers_corrected_stat [3, 3, 7, 7, 7, 7 :: nat] [3, 3, 3, 3, 7, 7 :: nat]
      = ([], Inr (NpFloat (Fin (1/4))))"
    by (simp add: round_to_quarter)
  with t show ?thesis by blast
qed

text \<open>
  The claim as first stated (the correction is applied exactly on a 2x2 table) fails
  on a 2x2 table: the corrected statistic would be \<open>3/32\<close> and give the value \<open>0\<close>,
  but the function returns \<open>0.25\<close>, the value of the uncorrected statistic \<open>3/2\<close>.
\<close>

theorem two_by_two_uncorrected_counterexample:
  "shape (crosstab [3, 3, 7, 7, 7, 7 :: nat] [3, 3, 3, 3, 7, 7 :: nat]) = (2, 2) \<and>
   chi2_contingency (crosstab [3, 3, 7, 7, 7, 7 :: nat] [3, 3, 3, 3, 7, 7 :: nat]) False
     = Inr (NpFloat (Fin (3/2))) \<and>
   chi2_contingency (crosstab [3, 3, 7, 7, 7, 7 :: nat] [3, 3, 3, 3, 7, 7 :: nat]) True
     = Inr (NpFloat (Fin (3/32))) \<and>
   corrected_value (NpFloat (Fin (3/32))) (crosstab [3, 3, 7, 7, 7, 7 :: nat] [3, 3, 3, 3, 7, 7 :: nat])
     = Inr (NpFloat (Fin 0)) \<and>
   cramers_corrected_stat [3, 3, 7, 7, 7, 7 :: nat] [3, 3, 3, 3, 7, 7 :: nat]
     = ([], Inr (NpFloat (Fin (1/4))))"
proof -
  have sh: "shape [[2, 0], [2, 2]] = (2, 2)"
    by (simp add: shape_def)
  have vc: "length (value_counts [3, 3, 7, 7, 7, 7 :: nat]) \<noteq> 1"
    "length (value_counts [3, 3, 3, 3, 7, 7 :: nat]) \<noteq> 1"
    by (simp_all add: value_counts_def levels_def)
  have "cramers_corrected_stat [3, 3, 7, 7, 7, 7 :: nat] [3, 3, 3, 3, 7, 7 :: nat]
      = ([], Inr (py_round (NpFloat (Fin (1/4))) 6))"
    unfolding cramers_corrected_stat_def Let_def crosstab_example
    using vc sh by (simp add: chi2_example_plain value_example_plain)
  then have st: "cramers_corrected_stat [3, 3, 7, 7, 7, 7 :: nat] [3, 3, 3, 3, 7, 7 :: nat]
      = ([], Inr (NpFloat (Fin (1/4))))"
    by (simp add: round_to_quarter)
  show ?thesis
    unfolding crosstab_example
    using sh chi2_example_plain chi2_example_yates value_example_yates st [unfolded crosstab_example]
    by (intro conjI)
qed

subsection \<open>Cramer's V: symmetry of the matrix\<close>

lemma sum_list_upt: "sum_list (map f [0..<n]) = sum f {0..<n}"
  by (simp add: interv_sum_list_conv_sum_set_nat)

lemma list_ex_upt: "list_ex P [0..<n] = (\<exists>i<n. P i)"
  by (auto simp: list_ex_iff)

lemma transposed_totals:
  assumes "shape T = (r, k)" "shape T' = (k, r)" "\<forall>i<r. \<forall>j<k. T' ! j ! i = T ! i ! j"
  shows "j < k \<Longrightarrow> row_total T' j = col_total T j"
    and "i < r \<Longrightarrow> col_total T' i = row_total T i"
    and "grand_total T' = grand_total T"
proof -
  show rt: "row_total T' j = col_total T j" if "j < k" for j
    using assms that by (simp add: row_total_def col_total_def sum_list_upt)
  show "col_total T' i = row_total T i" if "i < r"
    using assms that by (simp add: row_total_def col_total_def sum_list_upt)
  have "grand_total T' = (\<Sum>j = 0..<k. col_total T j)"
    using assms(2) rt by (simp add: grand_total_def sum_list_upt)
  also have "\<dots> = (\<Sum>j = 0..<k. \<Sum>i = 0..<r. T ! i ! j)"
    using assms(1) by (simp add: col_total_def sum_list_upt)
  also have "\<dots> = (\<Sum>i = 0..<r. \<Sum>j = 0..<k. T ! i ! j)"
    by (rule sum.swap)
  also have "\<dots> = grand_total T"
    using assms(1) by (simp add: grand_total_def row_total_def sum_list_upt)
  finally show "grand_total T' = grand_total T" .
qed

lemma transposed_expected:
  assumes "shape T = (r, k)" "shape T' = (k, r)" "\<forall>i<r. \<forall>j<k. T' ! j ! i = T ! i ! j"
    and "i < r" "j < k"
  shows "expected_freq T' j i = expected_freq T i j"
  using transposed_totals [OF assms(1-3)] assms(4,5)
  by (simp add: expected_freq_def mult.commute)

lemma transposed_dof:
  assumes "shape T = (r, k)" "shape T' = (k, r)"
  shows "dof T' = dof T"
  using assms by (simp add: dof_def mult.commute add.commute)

lemma transposed_chi2:
  assumes "shape T = (r, k)" "shape T' = (k, r)" "\<forall>i<r. \<forall>j<k. T' ! j ! i = T ! i ! j"
  shows "chi2_contingency T' False = chi2_contingency T False"
proof -
  note e = transposed_expected [OF assms]
  note d = transposed_dof [OF assms(1,2)]
  have g: "grand_total T' = grand_total T"
    by (rule transposed_totals(3) [OF assms])
  have z: "list_ex (\<lambda>j. list_ex (\<lambda>i. expected_freq T' j i = 0) [0..<r]) [0..<k]
      = list_ex (\<lambda>i. list_ex (\<lambda>j. expected_freq T i j = 0) [0..<k]) [0..<r]"
    unfolding list_ex_upt using e by metis
  have "(\<Sum>j = 0..<k. \<Sum>i = 0..<r. (real (T' ! j ! i) - expected_freq T' j i)\<^sup>2 / expected_freq T' j i)
      = (\<Sum>j = 0..<k. \<Sum>i = 0..<r. (real (T ! i ! j) - expected_freq T i j)\<^sup>2 / expected_freq T i j)"
    using e assms(3) by simp
  also have "\<dots> = (\<Sum>i = 0..<r. \<Sum>j = 0..<k. (real (T ! i ! j) - expected_freq T i j)\<^sup>2 / expected_freq T i j)"
    by (rule sum.swap)
  finally have s: "(\<Sum>j\<leftarrow>[0..<k]. \<Sum>i\<leftarrow>[0..<r].
        (real (T' ! j ! i) - expected_freq T' j i)\<^sup>2 / expected_freq T' j i)
      = (\<Sum>i\<leftarrow>[0..<r]. \<Sum>j\<leftarrow>[0..<k].
        (real (T ! i ! j) - expected_freq T i j)\<^sup>2 / expected_freq T i j)"
    by (simp add: sum_list_upt)
  show ?thesis
    using assms(1,2) by (simp add: chi2_contingency_def yates_applied_def d g z s mult.commute)
qed

lemma count_list_zip_swap: "count_list (zip y x) (b, a) = count_list (zip x y) (a, b)"
proof (induction x arbitrary: y)
  case Nil
  then show ?case by simp
next
  case (Cons u x)
  then show ?case by (cases y) auto
qed

lemma crosstab_cell:
  assumes "length x = length y" "i < card (set x)" "j < card (set y)"
  shows "crosstab x y ! i ! j = count_list (zip x y) (levels x ! i, levels y ! j)"
  using assms by (simp add: crosstab_def length_levels)

lemma crosstab_transposed:
  assumes "length x = length y" "i < card (set x)" "j < card (set y)"
  shows "crosstab y x ! j ! i = crosstab x y ! i ! j"
proof -
  have "crosstab y x ! j ! i = count_list (zip y x) (levels y ! j, levels x ! i)"
    using assms(1) by (intro crosstab_cell assms(2,3)) simp
  also have "\<dots> = count_list (zip x y) (levels x ! i, levels y ! j)"
    by (rule count_list_zip_swap)
  also have "\<dots> = crosstab x y ! i ! j"
    by (rule crosstab_cell [OF assms, symmetric])
  finally show ?thesis .
qed

lemma sum_count_distinct:
  "distinct B \<Longrightarrow> sum_list (map (\<lambda>b. if b' = b then 1 else 0) B) = (if b' \<in> set B then 1 else (0::nat))"
  by (induction B) auto

lemma count_pairs_sum:
  assumes "distinct B" "snd ` set pairs \<subseteq> set B"
  shows "sum_list (map (\<lambda>b. count_list pairs (a, b)) B) = count_list (map fst pairs) a"
  using assms(2)
proof (induction pairs)
  case Nil
  then show ?case by simp
next
  case (Cons p ps)
  obtain a' b' where p: "p = (a', b')" by (cases p)
  have b': "b' \<in> set B" using Cons.prems p by simp
  have "sum_list (map (\<lambda>b. count_list (p # ps) (a, b)) B)
      = sum_list (map (\<lambda>b. (if a' = a then (if b' = b then 1 else 0) else 0) + count_list ps (a, b)) B)"
    by (rule arg_cong [where f = sum_list]) (auto simp: p)
  also have "\<dots> = sum_list (map (\<lambda>b. if a' = a then (if b' = b then 1 else 0) else 0) B)
      + sum_list (map (\<lambda>b. count_list ps (a, b)) B)"
    by (simp add: sum_list_addf)
  also have "sum_list (map (\<lambda>b. if a' = a then (if b' = b then 1 else 0) else 0) B)
      = (if a' = a then 1 else (0::nat))"
    using sum_count_distinct [OF assms(1), of b'] b' by simp
  finally show ?case
    using Cons by (simp add: p)
qed

lemma crosstab_row_total:
  assumes "length x = length y" "x \<noteq> []" "i < card (set x)"
  shows "row_total (crosstab x y) i = count_list x (levels x ! i)"
proof -
  have k: "snd (shape (crosstab x y)) = length (levels y)"
    using assms(1,2) by (simp add: shape_crosstab length_levels)
  have "row_total (crosstab x y) i
      = sum_list (map (\<lambda>j. count_list (zip x y) (levels x ! i, levels y ! j)) [0..<length (levels y)])"
    unfolding row_total_def k
    by (rule arg_cong [where f = sum_list]) (use assms in \<open>simp add: crosstab_cell length_levels\<close>)
  also have "\<dots> = sum_list (map (\<lambda>b. count_list (zip x y) (levels x ! i, b)) (levels y))"
    by (rule arg_cong [where f = sum_list]) (simp add: map_equality_iff)
  also have "\<dots> = count_list (map fst (zip x y)) (levels x ! i)"
    by (rule count_pairs_sum) (use assms(1) in \<open>auto simp: distinct_levels set_levels dest: set_zip_rightD\<close>)
  finally show ?thesis using assms(1) by simp
qed

lemma crosstab_row_total_pos:
  assumes "length x = length y" "x \<noteq> []" "i < card (set x)"
  shows "0 < row_total (crosstab x y) i"
proof -
  have "levels x ! i \<in> set x"
    using assms(3) nth_mem [of i "levels x"] by (simp add: length_levels set_levels)
  then have "count_list x (levels x ! i) \<noteq> 0"
    by (simp add: count_list_0_iff)
  then show ?thesis
    using crosstab_row_total [OF assms] by simp
qed

lemma crosstab_shapes:
  assumes "length x = length y" "x \<noteq> []"
  shows "shape (crosstab x y) = (card (set x), card (set y))"
    and "shape (crosstab y x) = (card (set y), card (set x))"
    and "\<forall>i<card (set x). \<forall>j<card (set y). crosstab y x ! j ! i = crosstab x y ! i ! j"
proof -
  have y: "y \<noteq> []" using assms by auto
  show "shape (crosstab x y) = (card (set x), card (set y))"
    by (rule shape_crosstab [OF assms])
  show "shape (crosstab y x) = (card (set y), card (set x))"
    by (rule shape_crosstab [OF assms(1) [symmetric] y])
  show "\<forall>i<card (set x). \<forall>j<card (set y). crosstab y x ! j ! i = crosstab x y ! i ! j"
    by (intro allI impI crosstab_transposed assms(1))
qed

lemma crosstab_col_total_pos:
  assumes "length x = length y" "x \<noteq> []" "j < card (set y)"
  shows "0 < col_total (crosstab x y) j"
proof -
  have "y \<noteq> []" using assms by auto
  then have "0 < row_total (crosstab y x) j"
    using assms(3) by (intro crosstab_row_total_pos) (simp_all add: assms(1))
  then show ?thesis
    using transposed_totals(1) [OF crosstab_shapes [OF assms(1,2)] assms(3)] by simp
qed

lemma crosstab_chi2_defined:
  assumes "length x = length y" "x \<noteq> []"
  shows "\<exists>c. chi2_contingency (crosstab x y) flag = Inr c"
proof -
  note sh = crosstab_shapes(1) [OF assms]
  have cards: "card (set x) \<noteq> 0" "card (set y) \<noteq> 0"
    using assms by auto
  have "expected_freq (crosstab x y) i j \<noteq> 0"
    if "grand_total (crosstab x y) \<noteq> 0" "i < card (set x)" "j < card (set y)" for i j
    using that crosstab_row_total_pos [OF assms that(2)] crosstab_col_total_pos [OF assms that(3)]
    by (simp add: expected_freq_def)
  then have "\<not> list_ex (\<lambda>i. list_ex (\<lambda>j. expected_freq (crosstab x y) i j = 0)
        [0..<card (set y)]) [0..<card (set x)]"
    if "grand_total (crosstab x y) \<noteq> 0"
    using that by (auto simp: list_ex_upt)
  then show ?thesis
    using cards by (auto simp: chi2_contingency_def sh Let_def)
qed

lemma sum_counts_levels: "sum_list (map (count_list xs) (levels xs)) = length xs"
proof -
  have "sum_list (map (count_list xs) (levels xs)) = sum (count_list xs) (set (levels xs))"
    using distinct_levels by (rule sum_list_distinct_conv_sum_set)
  also have "\<dots> = length xs"
    by (simp add: set_levels sum_count_set)
  finally show ?thesis .
qed

lemma crosstab_grand_total:
  assumes "length x = length y" "x \<noteq> []"
  shows "grand_total (crosstab x y) = length x"
proof -
  have r: "fst (shape (crosstab x y)) = length (levels x)"
    using assms by (simp add: shape_crosstab length_levels)
  have "grand_total (crosstab x y)
      = sum_list (map (\<lambda>i. count_list x (levels x ! i)) [0..<length (levels x)])"
    unfolding grand_total_def r
    by (rule arg_cong [where f = sum_list])
       (use assms in \<open>simp add: crosstab_row_total length_levels\<close>)
  also have "\<dots> = sum_list (map (count_list x) (levels x))"
    by (rule arg_cong [where f = sum_list]) (simp add: map_equality_iff)
  finally show ?thesis by (simp add: sum_counts_levels)
qed

lemma py_min_float: "py_min (PyFloat a) (PyFloat b) = PyFloat (min a b)"
  by (auto simp: py_min_def py_lt_def)

lemma corrected_value_float_steps:
  assumes "n = int (grand_total T)" "r = int (fst (shape T))" "k = int (snd (shape T))"
    and "n \<noteq> 1"
  shows "corrected_value chi2 T =
    (case py_truediv chi2 (PyInt n) of
       Inl e \<Rightarrow> Inl e
     | Inr phi2 \<Rightarrow>
        (case py_truediv
                (py_max (PyInt 0)
                   (py_sub phi2 (PyFloat (of_int ((k - 1) * (r - 1)) / of_int (n - 1)))))
                (PyFloat (min (of_int k - of_int ((k - 1)\<^sup>2) / of_int (n - 1) - 1)
                              (of_int r - of_int ((r - 1)\<^sup>2) / of_int (n - 1) - 1))) of
           Inl e \<Rightarrow> Inl e
         | Inr q \<Rightarrow> Inr (NpFloat (np_sqrt (to_np q)))))"
  using assms(4) unfolding assms(1-3)
  by (auto simp: corrected_value_def Let_def py_min_float split: sum.splits)

lemma corrected_value_swap:
  assumes "grand_total T' = grand_total T" "shape T = (r, k)" "shape T' = (k, r)"
  shows "corrected_value chi2 T' = corrected_value chi2 T"
proof (cases "int (grand_total T) = 1")
  case True
  then show ?thesis
    using assms by (auto simp: corrected_value_def Let_def split: sum.splits)
next
  case False
  have a: "corrected_value chi2 T = (case py_truediv chi2 (PyInt (int (grand_total T))) of
       Inl e \<Rightarrow> Inl e
     | Inr phi2 \<Rightarrow>
        (case py_truediv
                (py_max (PyInt 0)
                   (py_sub phi2 (PyFloat (of_int ((int k - 1) * (int r - 1))
                      / of_int (int (grand_total T) - 1)))))
                (PyFloat (min (of_int (int k) - of_int ((int k - 1)\<^sup>2)
                                 / of_int (int (grand_total T) - 1) - 1)
                              (of_int (int r) - of_int ((int r - 1)\<^sup>2)
                                 / of_int (int (grand_total T) - 1) - 1))) of
           Inl e \<Rightarrow> Inl e
         | Inr q \<Rightarrow> Inr (NpFloat (np_sqrt (to_np q)))))"
    by (rule corrected_value_float_steps) (use assms False in simp_all)
  have b: "corrected_value chi2 T' = (case py_truediv chi2 (PyInt (int (grand_total T))) of
       Inl e \<Rightarrow> Inl e
     | Inr phi2 \<Rightarrow>
        (case py_truediv
                (py_max (PyInt 0)
                   (py_sub phi2 (PyFloat (of_int ((int r - 1) * (int k - 1))
                      / of_int (int (grand_total T) - 1)))))
                (PyFloat (min (of_int (int r) - of_int ((int r - 1)\<^sup>2)
                                 / of_int (int (grand_total T) - 1) - 1)
                              (of_int (int k) - of_int ((int k - 1)\<^sup>2)
                                 / of_int (int (grand_total T) - 1) - 1))) of
           Inl e \<Rightarrow> Inl e
         | Inr q \<Rightarrow> Inr (NpFloat (np_sqrt (to_np q)))))"
    by (rule corrected_value_float_steps) (use assms False in simp_all)
  have e1: "(int r - 1) * (int k - 1) = (int k - 1) * (int r - 1)"
    by (rule mult.commute)
  have e2: "min (real_of_int (int r) - real_of_int ((int r - 1)\<^sup>2)
                   / real_of_int (int (grand_total T) - 1) - 1)
                (real_of_int (int k) - real_of_int ((int k - 1)\<^sup>2)
                   / real_of_int (int (grand_total T) - 1) - 1)
          = min (real_of_int (int k) - real_of_int ((int k - 1)\<^sup>2)
                   / real_of_int (int (grand_total T) - 1) - 1)
                (real_of_int (int r) - real_of_int ((int r - 1)\<^sup>2)
                   / real_of_int (int (grand_total T) - 1) - 1)"
    by (rule min.commute)
  show ?thesis
    unfolding a b by (simp only: e1 e2)
qed

lemma py_truediv_float_defined:
  "d \<noteq> 0 \<Longrightarrow> \<exists>q. py_truediv v (PyFloat d) = Inr q"
  by (cases v) simp_all

lemma py_truediv_int_defined:
  "n \<noteq> 0 \<Longrightarrow> \<exists>q. py_truediv v (PyInt n) = Inr q"
  by (cases v) simp_all

lemma corr_term_pos:
  assumes "2 \<le> k" "k < n"
  shows "0 < real_of_int (int k) - real_of_int ((int k - 1)\<^sup>2) / real_of_int (int n - 1) - 1"
proof -
  have n1: "0 < real_of_int (int n - 1)" using assms by simp
  have "real_of_int ((int k - 1)\<^sup>2) / real_of_int (int n - 1)
      = (real k - 1) * ((real k - 1) / (real n - 1))"
    using assms by (simp add: power2_eq_square)
  moreover have "(real k - 1) / (real n - 1) < 1"
    using assms by simp
  moreover have "0 < real k - 1" using assms by simp
  ultimately have "real_of_int ((int k - 1)\<^sup>2) / real_of_int (int n - 1) < real k - 1"
    by (metis mult.right_neutral mult_strict_left_mono)
  then show ?thesis by simp
qed

lemma corrected_value_defined:
  assumes "shape T = (r, k)" "grand_total T = n" "2 \<le> r" "r < n" "2 \<le> k" "k < n"
  shows "\<exists>v. corrected_value chi2 T = Inr v"
proof -
  have n: "int n \<noteq> 1" "int n \<noteq> 0" using assms by simp_all
  obtain phi2 where phi2: "py_truediv chi2 (PyInt (int n)) = Inr phi2"
    using py_truediv_int_defined [OF n(2)] by blast
  define d :: real where "d = min
     (of_int (int k) - of_int ((int k - 1)\<^sup>2) / of_int (int n - 1) - 1)
     (of_int (int r) - of_int ((int r - 1)\<^sup>2) / of_int (int n - 1) - 1)"
  have "0 < d"
    unfolding d_def using corr_term_pos [OF assms(5,6)] corr_term_pos [OF assms(3,4)] by simp
  then have "d \<noteq> 0" by simp
  then obtain q where q: "py_truediv
      (py_max (PyInt 0) (py_sub phi2 (PyFloat (of_int ((int k - 1) * (int r - 1)) / of_int (int n - 1)))))
      (PyFloat d) = Inr q"
    using py_truediv_float_defined by blast
  have s: "corrected_value chi2 T =
    (case py_truediv chi2 (PyInt (int n)) of
       Inl e \<Rightarrow> Inl e
     | Inr phi2 \<Rightarrow>
        (case py_truediv
                (py_max (PyInt 0)
                   (py_sub phi2 (PyFloat (of_int ((int k - 1) * (int r - 1)) / of_int (int n - 1)))))
                (PyFloat d) of
           Inl e \<Rightarrow> Inl e
         | Inr q \<Rightarrow> Inr (NpFloat (np_sqrt (to_np q)))))"
    unfolding d_def by (rule corrected_value_float_steps) (use assms n in simp_all)
  have "corrected_value chi2 T = Inr (NpFloat (np_sqrt (to_np q)))"
    unfolding s phi2 sum.case q by (rule refl)
  then show ?thesis by blast
qed

lemma stat_defined:
  assumes "length x = length y" "x \<noteq> []"
    and "card (set x) = 1 \<or> card (set x) < length x"
    and "card (set y) = 1 \<or> card (set y) < length y"
  shows "\<exists>out v. cramers_corrected_stat x y = (out, Inr v)"
proof (cases "length (value_counts x) = 1 \<or> length (value_counts y) = 1")
  case True
  then show ?thesis by (auto simp: cramers_corrected_stat_def)
next
  case False
  then have ne: "length (value_counts x) \<noteq> 1" "length (value_counts y) \<noteq> 1"
    by simp_all
  have y: "y \<noteq> []" using assms(1,2) by auto
  have pos: "0 < card (set x)" "0 < card (set y)"
    using assms(2) y by (simp_all add: card_gt_0_iff)
  have r: "2 \<le> card (set x)" "card (set x) < length x"
    using ne(1) pos(1) assms(3) by (simp_all add: length_value_counts)
  have k: "2 \<le> card (set y)" "card (set y) < length x"
    using ne(2) pos(2) assms(4,1) by (simp_all add: length_value_counts)
  obtain c where c: "chi2_contingency (crosstab x y) (fst (shape (crosstab x y)) \<noteq> 2) = Inr c"
    using crosstab_chi2_defined [OF assms(1,2)] by blast
  obtain v where v: "corrected_value c (crosstab x y) = Inr v"
    using corrected_value_defined [OF shape_crosstab [OF assms(1,2)]
        crosstab_grand_total [OF assms(1,2)] r k]
    by blast
  show ?thesis
    unfolding stat_unfold [OF ne] c sum.case v by blast
qed

lemma stat_symmetric:
  assumes "length x = length y" "x \<noteq> []"
  shows "snd (cramers_corrected_stat y x) = snd (cramers_corrected_stat x y)"
proof (cases "length (value_counts x) = 1 \<or> length (value_counts y) = 1")
  case True
  then show ?thesis by (auto simp: cramers_corrected_stat_def)
next
  case False
  then have nx: "length (value_counts x) \<noteq> 1" and ny: "length (value_counts y) \<noteq> 1"
    by simp_all
  have y: "y \<noteq> []" using assms by auto
  note sh = crosstab_shapes [OF assms]
  have nz: "fst (shape (crosstab x y)) \<noteq> 0" "fst (shape (crosstab y x)) \<noteq> 0"
    using assms y by (simp_all add: sh)
  have chi: "chi2_contingency (crosstab y x) (fst (shape (crosstab y x)) \<noteq> 2)
      = chi2_contingency (crosstab x y) (fst (shape (crosstab x y)) \<noteq> 2)"
    unfolding flag_without_effect(2) [OF nz(1)] flag_without_effect(2) [OF nz(2)]
    by (rule transposed_chi2 [OF sh])
  have g: "grand_total (crosstab y x) = grand_total (crosstab x y)"
    by (rule transposed_totals(3) [OF sh])
  have val: "corrected_value c (crosstab y x) = corrected_value c (crosstab x y)" for c
    by (rule corrected_value_swap [OF g sh(1,2)])
  show ?thesis
    unfolding stat_unfold [OF nx ny] stat_unfold [OF ny nx] chi
    by (simp add: val split: sum.splits)
qed

lemma collect_defined:
  assumes "\<forall>k \<in> set ks. \<exists>out v. f k = (out, Inr v)"
  shows "\<exists>out. collect f ks = (out, Inr (map (\<lambda>k. projr (snd (f k))) ks))"
  using assms
proof (induction ks)
  case Nil
  then show ?case by simp
next
  case (Cons k ks)
  then obtain out v where k: "f k = (out, Inr v)" by auto
  from Cons obtain out' where "collect f ks = (out', Inr (map (\<lambda>k. projr (snd (f k))) ks))"
    by auto
  then show ?case by (simp add: k)
qed

lemma df_getitem_nth:
  assumes "distinct (map fst dataf)" "i < length dataf"
  shows "df_getitem dataf (map fst dataf ! i) = Inr (snd (dataf ! i))"
proof -
  have "(fst (dataf ! i), snd (dataf ! i)) \<in> set dataf"
    using assms(2) by simp
  then have "map_of dataf (fst (dataf ! i)) = Some (snd (dataf ! i))"
    using assms(1) by (intro map_of_is_SomeI)
  then show ?thesis
    using assms(2) by (simp add: df_getitem_def)
qed

lemma cramers_entry_nth:
  assumes "distinct (map fst dataf)" "i < length dataf" "j < length dataf"
  shows "cramers_entry dataf (map fst dataf ! i) (map fst dataf ! j) =
    (case cramers_corrected_stat (snd (dataf ! i)) (snd (dataf ! j)) of
       (out, Inl e) \<Rightarrow> (out, Inl e)
     | (out, Inr cramers) \<Rightarrow> (out, Inr (py_round cramers 2)))"
  unfolding cramers_entry_def df_getitem_nth [OF assms(1,2)] df_getitem_nth [OF assms(1,3)]
  by simp

lemma cramers_entry_defined:
  assumes "distinct (map fst dataf)" "\<forall>c \<in> set dataf. regular_column n (snd c)" "0 < n"
    and "i < length dataf" "j < length dataf"
  shows "\<exists>out. cramers_entry dataf (map fst dataf ! i) (map fst dataf ! j) =
    (out, Inr (py_round (projr (snd (cramers_corrected_stat (snd (dataf ! i)) (snd (dataf ! j))))) 2))"
proof -
  have reg: "regular_column n (snd (dataf ! i))" "regular_column n (snd (dataf ! j))"
    using assms(2,4,5) by simp_all
  then have "length (snd (dataf ! i)) = length (snd (dataf ! j))" "snd (dataf ! i) \<noteq> []"
    "card (set (snd (dataf ! i))) = 1 \<or> card (set (snd (dataf ! i))) < length (snd (dataf ! i))"
    "card (set (snd (dataf ! j))) = 1 \<or> card (set (snd (dataf ! j))) < length (snd (dataf ! j))"
    using assms(3) by (auto simp: regular_column_def)
  from stat_defined [OF this] obtain out v where
    "cramers_corrected_stat (snd (dataf ! i)) (snd (dataf ! j)) = (out, Inr v)"
    by blast
  then show ?thesis
    by (simp add: cramers_entry_nth [OF assms(1,4,5)])
qed

lemma cramers_entry_symmetric:
  assumes "distinct (map fst dataf)" "\<forall>c \<in> set dataf. regular_column n (snd c)" "0 < n"
    and "i < length dataf" "j < length dataf"
  shows "projr (snd (cramers_entry dataf (map fst dataf ! i) (map fst dataf ! j)))
       = projr (snd (cramers_entry dataf (map fst dataf ! j) (map fst dataf ! i)))"
proof -
  have reg: "regular_column n (snd (dataf ! i))" "regular_column n (snd (dataf ! j))"
    using assms(2,4,5) by simp_all
  then have "length (snd (dataf ! i)) = length (snd (dataf ! j))" "snd (dataf ! i) \<noteq> []"
    using assms(3) by (auto simp: regular_column_def)
  note sym = stat_symmetric [OF this]
  obtain o1 where e1: "cramers_entry dataf (map fst dataf ! i) (map fst dataf ! j) =
    (o1, Inr (py_round (projr (snd (cramers_corrected_stat (snd (dataf ! i)) (snd (dataf ! j))))) 2))"
    using cramers_entry_defined [OF assms] by blast
  obtain o2 where e2: "cramers_entry dataf (map fst dataf ! j) (map fst dataf ! i) =
    (o2, Inr (py_round (projr (snd (cramers_corrected_stat (snd (dataf ! j)) (snd (dataf ! i))))) 2))"
    using cramers_entry_defined [OF assms(1,2,3,5,4)] by blast
  show ?thesis
    unfolding e1 e2 by (simp add: sym)
qed

lemma all_distinct_column_raises:
  "cramers_corrected_stat [5, 8 :: nat] [5, 8 :: nat] = ([], Inl ZeroDivisionError)"
  by (simp add: cramers_corrected_stat_def value_counts_def levels_def crosstab_def
        chi2_contingency_def corrected_value_def shape_def grand_total_def row_total_def
        col_total_def expected_freq_def dof_def yates_applied_def upt_rec
        power2_eq_square py_max_def py_min_def py_lt_def Let_def)

text \<open>
  C8 (as amended).  For every frame with at least one column and at least one row,
  with distinct column names, in which every column is constant or has a repeated
  value, \<^verbatim>\<open>cramers_matrix\<close> returns a square matrix labelled by the column names
  on both axes, and its entries at \<open>(i, j)\<close> and \<open>(j, i)\<close> are equal.
\<close>

theorem cramers_matrix_symmetric:
  assumes "dataf \<noteq> []" and "distinct (map fst dataf)"
    and "\<forall>c \<in> set dataf. regular_column n (snd c)" and "0 < n"
  shows "\<exists>out M. cramers_matrix dataf = (out, Inr M) \<and>
           index_of M = map fst dataf \<and> columns_of M = map fst dataf \<and>
           length (values_of M) = length dataf \<and>
           (\<forall>i<length dataf. length (values_of M ! i) = length dataf) \<and>
           (\<forall>i<length dataf. \<forall>j<length dataf. values_of M ! i ! j = values_of M ! j ! i)"
proof -
  let ?names = "map fst dataf"
  let ?entry = "\<lambda>var1 var2. cramers_entry dataf var1 var2"
  let ?row = "\<lambda>var1. map (\<lambda>var2. projr (snd (?entry var1 var2))) ?names"
  have entry_ok: "\<exists>out v. ?entry var1 var2 = (out, Inr v)"
    if "var1 \<in> set ?names" "var2 \<in> set ?names" for var1 var2
  proof -
    from that obtain i j where "i < length dataf" "j < length dataf"
      "var1 = ?names ! i" "var2 = ?names ! j"
      by (metis in_set_conv_nth length_map)
    then show ?thesis
      using cramers_entry_defined [OF assms(2,3,4), of i j] by blast
  qed
  have row_ok: "\<exists>out. collect (?entry var1) ?names = (out, Inr (?row var1))"
    if "var1 \<in> set ?names" for var1
    using entry_ok [OF that] by (intro collect_defined) blast
  then have "\<forall>var1 \<in> set ?names. \<exists>out v. collect (?entry var1) ?names = (out, Inr v)"
    by blast
  from collect_defined [OF this] obtain out where
    all: "collect (\<lambda>var1. collect (?entry var1) ?names) ?names
      = (out, Inr (map (\<lambda>var1. projr (snd (collect (?entry var1) ?names))) ?names))"
    by blast
  have rows: "projr (snd (collect (?entry var1) ?names)) = ?row var1"
    if "var1 \<in> set ?names" for var1
    using row_ok [OF that] by auto
  define M where "M = \<lparr>values_of = map (map to_np) (map ?row ?names),
    columns_of = ?names, index_of = ?names\<rparr>"
  have "map (\<lambda>var1. projr (snd (collect (?entry var1) ?names))) ?names = map ?row ?names"
    using rows by (intro map_cong refl) simp
  then have run: "cramers_matrix dataf = (out, Inr M)"
    using assms(1) by (simp add: cramers_matrix_def all M_def)
  have cell: "values_of M ! i ! j = to_np (projr (snd (?entry (?names ! i) (?names ! j))))"
    if "i < length dataf" "j < length dataf" for i j
    using that by (simp add: M_def)
  have sym: "values_of M ! i ! j = values_of M ! j ! i"
    if "i < length dataf" "j < length dataf" for i j
    unfolding cell [OF that] cell [OF that(2,1)]
    by (rule arg_cong [where f = to_np]) (rule cramers_entry_symmetric [OF assms(2,3,4) that])
  have "index_of M = ?names" "columns_of M = ?names" "length (values_of M) = length dataf"
    "\<forall>i<length dataf. length (values_of M ! i) = length dataf"
    by (simp_all add: M_def)
  with run sym show ?thesis by blast
qed

theorem cramers_matrix_symmetric_witness:
  "\<exists>out M. cramers_matrix survey = (out, Inr M) \<and>
     index_of M = [''sex'', ''smoker'', ''site''] \<and>
     columns_of M = [''sex'', ''smoker'', ''site''] \<and>
     length (values_of M) = 3 \<and>
     values_of M ! 0 ! 1 = values_of M ! 1 ! 0 \<and>
     values_of M ! 0 ! 2 = values_of M ! 2 ! 0 \<and>
     values_of M ! 1 ! 2 = values_of M ! 2 ! 1"
proof -
  have a: "survey \<noteq> []" "distinct (map fst survey)"
    "\<forall>c \<in> set survey. regular_column 4 (snd c)" "0 < (4::nat)"
    by (simp_all add: survey_def regular_column_def card_set)
  have l: "length survey = 3" "map fst survey = [''sex'', ''smoker'', ''site'']"
    by (simp_all add: survey_def)
  from cramers_matrix_symmetric [OF a] obtain out M where
    m: "cramers_matrix survey = (out, Inr M)" "index_of M = map fst survey"
      "columns_of M = map fst survey" "length (values_of M) = length survey"
    and sym: "\<forall>i<length survey. \<forall>j<length survey. values_of M ! i ! j = values_of M ! j ! i"
    by blast
  have "values_of M ! 0 ! 1 = values_of M ! 1 ! 0" "values_of M ! 0 ! 2 = values_of M ! 2 ! 0"
    "values_of M ! 1 ! 2 = values_of M ! 2 ! 1"
    using sym by (simp_all add: l)
  with m show ?thesis
    unfolding l by blast
qed

text \<open>
  The claim as first stated (every frame) fails on a frame with no rows, where every
  contingency table is empty and the chi-squared routine raises, and on a frame with
  a column of all-distinct values, where line 141 divides the integer \<open>0\<close> by the
  float \<open>0.0\<close>.
\<close>

theorem no_matrix_counterexample:
  "cramers_matrix [(''sex'', [] :: nat list), (''smoker'', [])]
     = ([], Inl (ValueError [''No data; observed has size 0.''])) \<and>
   cramers_matrix [(''sex'', [5, 8 :: nat]), (''smoker'', [8, 5])] = ([], Inl ZeroDivisionError)"
proof -
  have "cramers_matrix [(''sex'', [] :: nat list), (''smoker'', [])]
      = ([], Inl (ValueError [''No data; observed has size 0.'']))"
    by (simp add: cramers_matrix_def cramers_entry_def df_getitem_def cramers_corrected_stat_def
          value_counts_def levels_def crosstab_def chi2_contingency_def shape_def)
  moreover have "cramers_matrix [(''sex'', [5, 8 :: nat]), (''smoker'', [8, 5])]
      = ([], Inl ZeroDivisionError)"
    by (simp add: cramers_matrix_def cramers_entry_def df_getitem_def all_distinct_column_raises)
  ultimately show ?thesis by (intro conjI)
qed

end
